theory Spec2Isabelle
  imports Main "HOL-Library.Char_ord" "HOL-Library.List_Lexorder"
begin

section \<open>Strings\<close>

text \<open>
  A JavaScript string is modelled as a \<^typ>\<open>string\<close>, one \<^typ>\<open>char\<close> per UTF-16 code unit,
  for the code units below 256 (Latin-1). The white space of \<^verbatim>\<open>String.prototype.trim\<close> and
  of the regular expression class \<^verbatim>\<open>\s\<close> in that range is TAB, LF, VT, FF, CR, SPACE and
  NO-BREAK SPACE.
\<close>

definition isWhiteSpace :: "char \<Rightarrow> bool" where
  "isWhiteSpace c = (c \<in> set [CHR 0x09, CHR 0x0A, CHR 0x0B, CHR 0x0C, CHR 0x0D, CHR 0x20, CHR 0xA0])"

definition trim :: "string \<Rightarrow> string" where
  "trim s = rev (dropWhile isWhiteSpace (rev (dropWhile isWhiteSpace s)))"

text \<open>
  \<^verbatim>\<open>s.split(re)\<close> for a regular expression \<^verbatim>\<open>re\<close> that matches exactly one character of a
  class: every separator ends a piece, so \<open>n\<close> separators give \<open>n + 1\<close> pieces and the empty
  string gives one empty piece.
\<close>

fun split_chars :: "(char \<Rightarrow> bool) \<Rightarrow> string \<Rightarrow> string list" where
  "split_chars sep [] = [] # []"
| "split_chars sep (c # cs) =
     (if sep c then [] # split_chars sep cs
      else (case split_chars sep cs of
              [] \<Rightarrow> [c] # []
            | w # ws \<Rightarrow> (c # w) # ws))"

text \<open>\<^verbatim>\<open>xs.join(sep)\<close>.\<close>

fun join :: "string \<Rightarrow> string list \<Rightarrow> string" where
  "join sep [] = []"
| "join sep [x] = x"
| "join sep (x # y # ys) = x @ sep @ join sep (y # ys)"

text \<open>
  The decimal numeral that a template literal prints for an integral number
  (below \<open>10\<^sup>2\<^sup>1\<close> in absolute value, where JavaScript switches to exponent notation).
\<close>

fun string_of_nat :: "nat \<Rightarrow> string" where
  "string_of_nat n =
     (if n < 10 then [char_of (48 + n)]
      else string_of_nat (n div 10) @ [char_of (48 + n mod 10)])"

declare string_of_nat.simps [simp del]

definition string_of_int :: "int \<Rightarrow> string" where
  "string_of_int i = (if i < 0 then CHR ''-'' # string_of_nat (nat (- i)) else string_of_nat (nat i))"

text \<open>
  \<^verbatim>\<open>Array.from(new Set(xs))\<close>: a Set keeps the first occurrence of every element, in insertion
  order.
\<close>

definition set_insert :: "'a list \<Rightarrow> 'a \<Rightarrow> 'a list" where
  "set_insert acc x = (if x \<in> set acc then acc else acc @ [x])"

definition uniq :: "'a list \<Rightarrow> 'a list" where
  "uniq xs = foldl set_insert [] xs"

section \<open>The local store\<close>

text \<open>
  An IndexedDB object store with an inline key path: the rows, kept in ascending order of the
  key that \<open>key\<close> reads off each row. \<^verbatim>\<open>put\<close> replaces the row with the same key or inserts
  a new one; \<^verbatim>\<open>getAll\<close> returns the rows in key order. Keys are strings. Transactions are
  taken to succeed: the model has no storage failure.
\<close>

definition store_get :: "('r \<Rightarrow> string) \<Rightarrow> 'r list \<Rightarrow> string \<Rightarrow> 'r option" where
  "store_get key rows k = find (\<lambda>r. key r = k) rows"

definition store_put :: "('r \<Rightarrow> string) \<Rightarrow> 'r \<Rightarrow> 'r list \<Rightarrow> 'r list" where
  "store_put key d rows = insort_key key d (filter (\<lambda>r. key r \<noteq> key d) rows)"

definition store_getAll :: "'r list \<Rightarrow> 'r list" where
  "store_getAll rows = rows"

definition store_clear :: "'r list \<Rightarrow> 'r list" where
  "store_clear rows = []"

definition store_count :: "'r list \<Rightarrow> nat" where
  "store_count rows = length rows"

text \<open>
  The rows of a store are in strictly ascending key order: every key once.
\<close>

definition store_ok :: "('r \<Rightarrow> string) \<Rightarrow> 'r list \<Rightarrow> bool" where
  "store_ok key rows = (sorted (map key rows) \<and> distinct (map key rows))"

section \<open>Data model\<close>

text \<open>
  The day state. \<^verbatim>\<open>tweetUrl\<close> and \<^verbatim>\<open>manualImageUrls\<close> are optional fields of the
  object (\<open>None\<close> is \<^verbatim>\<open>undefined\<close>).
\<close>

record DayRecord =
  d_id :: string
  d_year :: int
  d_day :: int
  d_done :: bool
  d_tweetUrl :: "string option"
  d_manualImageUrls :: "string list option"

type_synonym blob = "nat list"

record ImageCacheEntry =
  i_url :: string
  i_blob :: blob
  i_timestamp :: int

record UrlCacheEntry =
  u_tweetUrl :: string
  u_imageUrls :: "string list"
  u_timestamp :: int

text \<open>
  What an \<^verbatim>\<open>img\<close> element shows: a remote URL, or the object URL that
  \<^verbatim>\<open>URL.createObjectURL\<close> makes for a blob.
\<close>

datatype img_src = Remote string | ObjectURL blob

text \<open>
  The IndexedDB database (three object stores) and the state of the component:
  the \<^verbatim>\<open>useState\<close> cells and the \<^verbatim>\<open>prevImgCountRef\<close> ref. \<open>requests\<close> logs the URLs
  passed to \<^verbatim>\<open>fetch\<close>, in order.
\<close>

record app_state =
  days :: "DayRecord list"
  images :: "ImageCacheEntry list"
  urls :: "UrlCacheEntry list"
  year :: int
  selectedDay :: int
  dayState :: "DayRecord option"
  loading :: bool
  oembedHTML :: string
  oembedImgs :: "img_src list"
  manualUrlsInput :: string
  allDaysCache :: "int \<rightharpoonup> DayRecord"
  cacheStats :: "nat \<times> nat"
  prevImgCount :: nat
  requests :: "string list"

definition CACHE_TTL :: int where
  "CACHE_TTL = 365 * 24 * 60 * 60 * 1000"

section \<open>Day records\<close>

definition idFor :: "int \<Rightarrow> int \<Rightarrow> string" where
  "idFor y d = string_of_int y @ ''-10-'' @ string_of_int d"

definition getDay :: "DayRecord list \<Rightarrow> int \<Rightarrow> int \<Rightarrow> DayRecord option" where
  "getDay rows y d = store_get d_id rows (idFor y d)"

definition setDay :: "DayRecord \<Rightarrow> DayRecord list \<Rightarrow> DayRecord list" where
  "setDay st rows = store_put d_id st rows"

definition getAllDays :: "DayRecord list \<Rightarrow> DayRecord list" where
  "getAllDays rows = store_getAll rows"

text \<open>\<^verbatim>\<open>list.forEach((d) => (map[d.day] = d))\<close> on an empty object.\<close>

definition index_by_day :: "DayRecord list \<Rightarrow> (int \<rightharpoonup> DayRecord)" where
  "index_by_day list = foldl (\<lambda>m d. m(d_day d \<mapsto> d)) Map.empty list"

definition default_day :: "int \<Rightarrow> int \<Rightarrow> DayRecord" where
  "default_day y d =
     \<lparr>d_id = idFor y d, d_year = y, d_day = d, d_done = False,
      d_tweetUrl = Some [], d_manualImageUrls = Some []\<rparr>"

text \<open>The effect that loads the selected day and refreshes the calendar's index.\<close>

definition loadDay :: "app_state \<Rightarrow> app_state" where
  "loadDay s =
     (let st = getDay (days s) (year s) (selectedDay s) in
      s\<lparr>dayState := Some (case st of Some r \<Rightarrow> r | None \<Rightarrow> default_day (year s) (selectedDay s)),
        oembedHTML := [],
        oembedImgs := [],
        manualUrlsInput :=
          join '', '' (case st of None \<Rightarrow> []
                       | Some r \<Rightarrow> (case d_manualImageUrls r of None \<Rightarrow> [] | Some us \<Rightarrow> us)),
        allDaysCache := index_by_day (getAllDays (days s))\<rparr>)"

text \<open>\<^verbatim>\<open>persist(partial)\<close>: the merge patch, as a function that updates the record.\<close>

definition persist :: "(DayRecord \<Rightarrow> DayRecord) \<Rightarrow> app_state \<Rightarrow> app_state" where
  "persist partial s =
     (case dayState s of
        None \<Rightarrow> s
      | Some cur \<Rightarrow>
          (let next = partial cur in
           s\<lparr>dayState := Some next,
             days := setDay next (days s),
             allDaysCache := (allDaysCache s)(d_day next \<mapsto> next)\<rparr>))"

definition parseManualUrls :: "string \<Rightarrow> string list" where
  "parseManualUrls input =
     filter (\<lambda>s. length s > 0)
       (map trim (split_chars (\<lambda>c. c = CHR 0x0A \<or> c = CHR '','') input))"

definition handleManualUrlsSave :: "app_state \<Rightarrow> app_state" where
  "handleManualUrlsSave s =
     persist (\<lambda>r. r\<lparr>d_manualImageUrls := Some (parseManualUrls (manualUrlsInput s))\<rparr>) s"

section \<open>Image cache\<close>

definition saveImageToCache :: "int \<Rightarrow> string \<Rightarrow> blob \<Rightarrow> app_state \<Rightarrow> app_state" where
  "saveImageToCache now url b s =
     s\<lparr>images := store_put i_url \<lparr>i_url = url, i_blob = b, i_timestamp = now\<rparr> (images s)\<rparr>"

text \<open>
  The read opens a read-only transaction: it returns the blob or \<open>None\<close> (\<^verbatim>\<open>null\<close>) and
  the state as it found it. A blob is an object, so \<^verbatim>\<open>result.blob\<close> is truthy.
\<close>

definition getImageFromCache :: "int \<Rightarrow> string \<Rightarrow> app_state \<Rightarrow> blob option \<times> app_state" where
  "getImageFromCache now url s =
     (case store_get i_url (images s) url of
        Some result \<Rightarrow>
          (let isExpired = now - i_timestamp result > 365 * 24 * 60 * 60 * 1000
           in (if isExpired then None else Some (i_blob result), s))
      | None \<Rightarrow> (None, s))"

definition saveTweetUrlsToCache :: "int \<Rightarrow> string \<Rightarrow> string list \<Rightarrow> app_state \<Rightarrow> app_state" where
  "saveTweetUrlsToCache now tweetUrl imageUrls s =
     s\<lparr>urls := store_put u_tweetUrl
                \<lparr>u_tweetUrl = tweetUrl, u_imageUrls = imageUrls, u_timestamp = now\<rparr> (urls s)\<rparr>"

text \<open>An array is truthy even when it is empty, so \<^verbatim>\<open>result.imageUrls\<close> always passes.\<close>

definition getTweetUrlsFromCache :: "int \<Rightarrow> string \<Rightarrow> app_state \<Rightarrow> string list option \<times> app_state" where
  "getTweetUrlsFromCache now tweetUrl s =
     (case store_get u_tweetUrl (urls s) tweetUrl of
        Some result \<Rightarrow>
          (let isExpired = now - u_timestamp result > 365 * 24 * 60 * 60 * 1000
           in (if isExpired then None else Some (u_imageUrls result), s))
      | None \<Rightarrow> (None, s))"

definition clearImageCache :: "app_state \<Rightarrow> app_state" where
  "clearImageCache s = s\<lparr>images := store_clear (images s)\<rparr>"

definition clearUrlsCache :: "app_state \<Rightarrow> app_state" where
  "clearUrlsCache s = s\<lparr>urls := store_clear (urls s)\<rparr>"

definition getCacheStats :: "app_state \<Rightarrow> nat \<times> nat" where
  "getCacheStats s = (store_count (images s), store_count (urls s))"

section \<open>The network and the browser\<close>

text \<open>
  What the code reads of a response: \<^verbatim>\<open>res.ok\<close>, \<^verbatim>\<open>res.text()\<close>, \<^verbatim>\<open>res.blob()\<close>, and of
  \<^verbatim>\<open>res.json()\<close> the two fields \<^verbatim>\<open>html\<close> and \<^verbatim>\<open>contents\<close>. \<open>NotJSON\<close> is a body that
  \<^verbatim>\<open>res.json()\<close> rejects. \<open>j_html\<close> is the string in \<^verbatim>\<open>html\<close>, and \<open>None\<close> when
  \<^verbatim>\<open>data?.html\<close> is \<^verbatim>\<open>undefined\<close>, \<^verbatim>\<open>null\<close> or another falsy value, for which
  \<^verbatim>\<open>data?.html || ""\<close> is the empty string (a truthy \<^verbatim>\<open>html\<close> that is no string is
  outside the model). \<open>j_contents\<close> is the string in \<^verbatim>\<open>contents\<close>, and \<open>None\<close> for
  every other value, on which \<^verbatim>\<open>text.match\<close> throws a TypeError, and for a \<^verbatim>\<open>data\<close>
  that is \<^verbatim>\<open>null\<close>, on which reading \<^verbatim>\<open>contents\<close> throws.
\<close>

datatype json_body = NotJSON | JSON (j_html: "string option") (j_contents: "string option")

record http_response =
  res_ok :: bool
  res_text :: string
  res_json :: json_body
  res_blob :: blob

text \<open>
  The environment of one handler run: \<open>fetch_of\<close> answers a request (\<open>None\<close>: the promise
  rejects), \<open>img_srcs_of\<close> is the browser's HTML parser followed by
  \<^verbatim>\<open>querySelectorAll("img")\<close> and the \<^verbatim>\<open>src\<close> of every element found. \<^verbatim>\<open>Date.now()\<close> is
  one value \<open>now\<close> for the whole run.
\<close>

record env =
  fetch_of :: "string \<Rightarrow> http_response option"
  img_srcs_of :: "string \<Rightarrow> string list"

definition fetch :: "env \<Rightarrow> string \<Rightarrow> app_state \<Rightarrow> http_response option \<times> app_state" where
  "fetch w url s = (fetch_of w url, s\<lparr>requests := requests s @ [url]\<rparr>)"

section \<open>Utils\<close>

fun strip_prefix :: "string \<Rightarrow> string \<Rightarrow> string option" where
  "strip_prefix [] t = Some t"
| "strip_prefix (p # ps) [] = None"
| "strip_prefix (p # ps) (c # cs) = (if p = c then strip_prefix ps cs else None)"

text \<open>\<^verbatim>\<open>hay.includes(needle)\<close>.\<close>

fun str_includes :: "string \<Rightarrow> string \<Rightarrow> bool" where
  "str_includes needle [] = (needle = [])"
| "str_includes needle (c # cs) =
     (case strip_prefix needle (c # cs) of Some t \<Rightarrow> True | None \<Rightarrow> str_includes needle cs)"

text \<open>\<^verbatim>\<open>tweetUrl.replace(/^https?:\/\//, "")\<close>.\<close>

definition strip_scheme :: "string \<Rightarrow> string" where
  "strip_scheme u =
     (case strip_prefix ''https://'' u of
        Some r \<Rightarrow> r
      | None \<Rightarrow> (case strip_prefix ''http://'' u of Some r \<Rightarrow> r | None \<Rightarrow> u))"

text \<open>
  \<^verbatim>\<open>encodeURIComponent\<close>: letters, digits and \<^verbatim>\<open>-_.!~*'()\<close> stay, every other character
  becomes the percent-escapes of its UTF-8 bytes (one byte below 128, two up to 255).
\<close>

definition isAlnum :: "char \<Rightarrow> bool" where
  "isAlnum c = ((CHR ''A'' \<le> c \<and> c \<le> CHR ''Z'') \<or> (CHR ''a'' \<le> c \<and> c \<le> CHR ''z'')
                \<or> (CHR ''0'' \<le> c \<and> c \<le> CHR ''9''))"

definition isDigit :: "char \<Rightarrow> bool" where
  "isDigit c = (CHR ''0'' \<le> c \<and> c \<le> CHR ''9'')"

definition hex_digit :: "nat \<Rightarrow> char" where
  "hex_digit n = ''0123456789ABCDEF'' ! (n mod 16)"

definition percent :: "nat \<Rightarrow> string" where
  "percent n = [CHR ''%'', hex_digit (n div 16), hex_digit n]"

definition encode_char :: "char \<Rightarrow> string" where
  "encode_char c =
     (if isAlnum c \<or> c \<in> set ''-_.!~*()'' \<or> c = CHR 0x27 then [c]
      else (let n = (of_char c :: nat) in
            if n < 128 then percent n
            else percent (192 + n div 64) @ percent (128 + n mod 64)))"

definition encodeURIComponent :: "string \<Rightarrow> string" where
  "encodeURIComponent s = concat (map encode_char s)"

definition extractImgSrcsFromHTML :: "env \<Rightarrow> string \<Rightarrow> string list" where
  "extractImgSrcsFromHTML w html = uniq (filter (\<lambda>src. src \<noteq> []) (img_srcs_of w html))"

subsection \<open>The media pattern\<close>

text \<open>
  \<^verbatim>\<open>/https?:\/\/pbs\.twimg\.com\/media\/[A-Za-z0-9_-]+[^"'\)\s]*/g\<close>. \<open>match_media_at\<close> is
  the match that starts at the head of the text, if there is one: the scheme with the
  optional \<^verbatim>\<open>s\<close> (tried first, without it on failure), the host and path, a longest
  non-empty run of the first class, then a longest run of the second.
\<close>

definition isMediaIdChar :: "char \<Rightarrow> bool" where
  "isMediaIdChar c = (isAlnum c \<or> c = CHR ''_'' \<or> c = CHR ''-'')"

definition isMediaTailChar :: "char \<Rightarrow> bool" where
  "isMediaTailChar c = (\<not> (c = CHR 0x22 \<or> c = CHR 0x27 \<or> c = CHR '')'' \<or> isWhiteSpace c))"

definition match_media_rest :: "string \<Rightarrow> string \<Rightarrow> string option" where
  "match_media_rest scheme t =
     (case strip_prefix ''://pbs.twimg.com/media/'' t of
        None \<Rightarrow> None
      | Some t' \<Rightarrow>
          (let ident = takeWhile isMediaIdChar t' in
           if ident = [] then None
           else Some (scheme @ ''://pbs.twimg.com/media/'' @ ident
                        @ takeWhile isMediaTailChar (dropWhile isMediaIdChar t'))))"

definition match_media_at :: "string \<Rightarrow> string option" where
  "match_media_at text =
     (case strip_prefix ''http'' text of
        None \<Rightarrow> None
      | Some t \<Rightarrow>
          (case (case strip_prefix ''s'' t of
                   Some t' \<Rightarrow> match_media_rest ''https'' t'
                 | None \<Rightarrow> None) of
             Some m \<Rightarrow> Some m
           | None \<Rightarrow> match_media_rest ''http'' t))"

text \<open>
  \<^verbatim>\<open>text.match(mediaRegex) || []\<close> with the global flag: the matches from left to right,
  each search starting where the last match ended.
\<close>

fun match_media_all :: "string \<Rightarrow> string list" where
  "match_media_all [] = []"
| "match_media_all (c # cs) =
     (case match_media_at (c # cs) of
        Some m \<Rightarrow> m # match_media_all (drop (length m - 1) cs)
      | None \<Rightarrow> match_media_all cs)"

definition normalize_media_url :: "string \<Rightarrow> string" where
  "normalize_media_url u =
     (let cleanUrl = takeWhile (\<lambda>c. c \<noteq> CHR ''?'') u in cleanUrl @ ''?format=jpg&name=large'')"

definition proxies :: "string \<Rightarrow> string list" where
  "proxies tweetUrl =
     [''https://r.jina.ai/http://'' @ strip_scheme tweetUrl,
      ''https://api.allorigins.win/get?url='' @ encodeURIComponent tweetUrl,
      ''https://cors-anywhere.herokuapp.com/'' @ tweetUrl]"

text \<open>
  The body the loop reads from one relay, \<open>None\<close> when reading it throws (the JSON is
  rejected, or \<^verbatim>\<open>contents\<close> is no string).
\<close>

definition proxy_text :: "string \<Rightarrow> http_response \<Rightarrow> string option" where
  "proxy_text proxyUrl res =
     (if str_includes ''allorigins.win'' proxyUrl
      then (case res_json res of NotJSON \<Rightarrow> None | JSON h c \<Rightarrow> c)
      else Some (res_text res))"

text \<open>The loop of \<^verbatim>\<open>fetchTweetImagesViaProxy\<close> over the relays that are left.\<close>

fun try_proxies :: "env \<Rightarrow> string list \<Rightarrow> app_state \<Rightarrow> string list \<times> app_state" where
  "try_proxies w [] s = ([], s)"
| "try_proxies w (proxyUrl # rest) s =
     (let (res, s1) = fetch w proxyUrl s in
      case res of
        None \<Rightarrow> try_proxies w rest s1
      | Some r \<Rightarrow>
          if \<not> res_ok r then try_proxies w rest s1
          else (case proxy_text proxyUrl r of
                  None \<Rightarrow> try_proxies w rest s1
                | Some text \<Rightarrow>
                    (let found = uniq (match_media_all text) in
                     if length found > 0 then (map normalize_media_url found, s1)
                     else try_proxies w rest s1)))"

definition fetchTweetImagesViaProxy :: "env \<Rightarrow> string \<Rightarrow> app_state \<Rightarrow> string list \<times> app_state" where
  "fetchTweetImagesViaProxy w tweetUrl s = try_proxies w (proxies tweetUrl) s"

subsection \<open>Known tweets\<close>

text \<open>\<^verbatim>\<open>tweetUrl.match(/\/status\/(\d+)/)\<close>: the digits of the leftmost match.\<close>

fun match_status_id :: "string \<Rightarrow> string option" where
  "match_status_id [] = None"
| "match_status_id (c # cs) =
     (case strip_prefix ''/status/'' (c # cs) of
        None \<Rightarrow> match_status_id cs
      | Some t \<Rightarrow>
          (if takeWhile isDigit t \<noteq> [] then Some (takeWhile isDigit t)
           else match_status_id cs))"

definition knownImages :: "string \<Rightarrow> string list option" where
  "knownImages tweetId =
     (if tweetId = ''1973385010481606663''
      then Some [''https://pbs.twimg.com/media/G2LfJa8WgAM9qkW?format=jpg&name=large'',
                 ''https://pbs.twimg.com/media/G2LfJa1WkAACYAk?format=jpg&name=large'',
                 ''https://pbs.twimg.com/media/G2LfJbEXMAA39wl?format=jpg&name=large'',
                 ''https://pbs.twimg.com/media/G2LfJaxWMAABWFy?format=jpg&name=large'']
      else None)"

definition getKnownTweetImages :: "string \<Rightarrow> string list" where
  "getKnownTweetImages tweetUrl =
     (case match_status_id tweetUrl of
        Some tweetId \<Rightarrow> (case knownImages tweetId of Some imgs \<Rightarrow> imgs | None \<Rightarrow> [])
      | None \<Rightarrow> [])"

section \<open>Downloading images\<close>

definition downloadAndCacheImage :: "env \<Rightarrow> int \<Rightarrow> string \<Rightarrow> app_state \<Rightarrow> img_src \<times> app_state" where
  "downloadAndCacheImage w now url s =
     (let (cachedBlob, s0) = getImageFromCache now url s in
      case cachedBlob of
        Some b \<Rightarrow> (ObjectURL b, s0)
      | None \<Rightarrow>
          (let (response, s1) = fetch w url s0 in
           case response of
             None \<Rightarrow> (Remote url, s1)
           | Some r \<Rightarrow>
               if \<not> res_ok r then (Remote url, s1)
               else (ObjectURL (res_blob r), saveImageToCache now url (res_blob r) s1)))"

fun process_images :: "env \<Rightarrow> int \<Rightarrow> string list \<Rightarrow> app_state \<Rightarrow> img_src list \<times> app_state" where
  "process_images w now [] s = ([], s)"
| "process_images w now (imageUrl # rest) s =
     (let (cachedImageUrl, s1) = downloadAndCacheImage w now imageUrl s;
          (processed, s2) = process_images w now rest s1
      in (cachedImageUrl # processed, s2))"

section \<open>Resolving the images of a tweet\<close>

text \<open>Step 1 of \<^verbatim>\<open>handleTweetFetch\<close>: the oEmbed request.\<close>

definition oembed_images :: "env \<Rightarrow> string \<Rightarrow> app_state \<Rightarrow> string list \<times> app_state" where
  "oembed_images w url s =
     (let endpoint = ''https://publish.x.com/oembed?omit_script=0&hide_thread=1&url=''
                       @ encodeURIComponent url;
          (res, s1) = fetch w endpoint s
      in case res of
           None \<Rightarrow> ([], s1)
         | Some r \<Rightarrow>
             if res_ok r
             then (case res_json r of
                     NotJSON \<Rightarrow> ([], s1)
                   | JSON h c \<Rightarrow>
                       (let html = (case h of Some x \<Rightarrow> x | None \<Rightarrow> [])
                        in (extractImgSrcsFromHTML w html, s1\<lparr>oembedHTML := html\<rparr>)))
             else ([], s1))"

text \<open>Steps 1 to 3 and the write to the cache: the \<^verbatim>\<open>else\<close> branch after the cache lookup.\<close>

definition resolve_uncached :: "env \<Rightarrow> int \<Rightarrow> string \<Rightarrow> app_state \<Rightarrow> string list \<times> app_state" where
  "resolve_uncached w now url s =
     (let (images1, s1) = oembed_images w url s;
          (images2, s2) = (if length images1 = 0 then fetchTweetImagesViaProxy w url s1
                           else (images1, s1));
          images3 = (if length images2 = 0 then getKnownTweetImages url else images2);
          s3 = (if length images3 > 0 then saveTweetUrlsToCache now url images3 s2 else s2)
      in (images3, s3))"

text \<open>Steps 0 to 3: the images of the tweet, from the cache or from the strategies.\<close>

definition resolve_images :: "env \<Rightarrow> int \<Rightarrow> string \<Rightarrow> app_state \<Rightarrow> string list \<times> app_state" where
  "resolve_images w now url s =
     (let (cachedUrls, s0) = getTweetUrlsFromCache now url s in
      case cachedUrls of
        Some cached \<Rightarrow> if length cached > 0 then (cached, s0) else resolve_uncached w now url s0
      | None \<Rightarrow> resolve_uncached w now url s0)"

text \<open>
  The trimmed \<^verbatim>\<open>tweetUrl\<close> of the current record, when \<^verbatim>\<open>handleTweetFetch\<close> goes on:
  there is a record and the URL is not empty.
\<close>

definition fetch_url :: "app_state \<Rightarrow> string option" where
  "fetch_url s =
     (case dayState s of
        None \<Rightarrow> None
      | Some ds \<Rightarrow>
          (case d_tweetUrl ds of
             None \<Rightarrow> None
           | Some t \<Rightarrow> if trim t = [] then None else Some (trim t)))"

text \<open>The synchronous start of \<^verbatim>\<open>handleTweetFetch\<close>, up to its first \<^verbatim>\<open>await\<close>.\<close>

definition handleTweetFetch_begin :: "app_state \<Rightarrow> app_state" where
  "handleTweetFetch_begin s =
     (case fetch_url s of
        None \<Rightarrow> s
      | Some url \<Rightarrow> s\<lparr>loading := True, oembedHTML := [], oembedImgs := []\<rparr>)"

text \<open>The rest of \<^verbatim>\<open>handleTweetFetch\<close>, for the URL read at the start.\<close>

definition handleTweetFetch_rest :: "env \<Rightarrow> int \<Rightarrow> string \<Rightarrow> app_state \<Rightarrow> app_state" where
  "handleTweetFetch_rest w now url s =
     (let (images, s1) = resolve_images w now url s;
          s2 = (if length images > 0
                then (let (processedImages, s') = process_images w now images s1
                      in s'\<lparr>oembedImgs := processedImages\<rparr>)
                else s1)
      in s2\<lparr>loading := False\<rparr>)"

definition handleTweetFetch :: "env \<Rightarrow> int \<Rightarrow> app_state \<Rightarrow> app_state" where
  "handleTweetFetch w now s =
     (case fetch_url s of
        None \<Rightarrow> s
      | Some url \<Rightarrow> handleTweetFetch_rest w now url (handleTweetFetch_begin s))"

section \<open>Export and import\<close>

text \<open>
  The document, as the value that \<^verbatim>\<open>JSON.stringify\<close> writes and \<^verbatim>\<open>JSON.parse\<close> reads
  back. Of an imported document the code reads \<^verbatim>\<open>json?.data\<close> only: it is missing
  (\<^verbatim>\<open>undefined\<close>, \<^verbatim>\<open>null\<close> or another falsy value, also when the document itself is
  \<^verbatim>\<open>null\<close>), or a truthy value that is no array, or an array. An element of the array is a
  record, or a value on which the key path \<^verbatim>\<open>id\<close> gives no key, so that \<^verbatim>\<open>store.put\<close>
  throws a DataError; the puts made before the throw stay in the transaction.
\<close>

datatype import_item = ItemRecord DayRecord | ItemNoKey

datatype import_data = DataMissing | DataNotArray | DataArray "import_item list"

record document =
  doc_year :: int
  doc_month :: int
  doc_data :: import_data

datatype file_content = Unparsable | Parsed document

datatype js_error = SyntaxError | TypeError | DataError


text \<open>\<^verbatim>\<open>list.forEach((d) => store.put(d))\<close>.\<close>

fun put_all :: "import_item list \<Rightarrow> DayRecord list \<Rightarrow> js_error option \<times> DayRecord list" where
  "put_all [] rows = (None, rows)"
| "put_all (ItemRecord d # ds) rows = put_all ds (store_put d_id d rows)"
| "put_all (ItemNoKey # ds) rows = (Some DataError, rows)"

text \<open>
  The result is the error that the \<^verbatim>\<open>catch\<close> logs, if any, and the new state. The file is
  \<open>None\<close> when no file was chosen.
\<close>

definition handleImport :: "file_content option \<Rightarrow> app_state \<Rightarrow> js_error option \<times> app_state" where
  "handleImport file s =
     (case file of
        None \<Rightarrow> (None, s)
      | Some Unparsable \<Rightarrow> (Some SyntaxError, s)
      | Some (Parsed json) \<Rightarrow>
          (case doc_data json of
             DataNotArray \<Rightarrow> (Some TypeError, s)
           | data \<Rightarrow>
               (let list = (case data of DataArray l \<Rightarrow> l | _ \<Rightarrow> []);
                    (err, rows) = put_all list (days s);
                    s1 = s\<lparr>days := rows\<rparr>
                in case err of
                     Some e \<Rightarrow> (Some e, s1)
                   | None \<Rightarrow>
                       (None, s1\<lparr>dayState := getDay rows (year s1) (selectedDay s1),
                                 allDaysCache := index_by_day (getAllDays rows)\<rparr>))))"

section \<open>Clearing the caches\<close>

text \<open>
  The handler of the clear-cache button; \<open>confirmed\<close> is the answer to \<^verbatim>\<open>confirm\<close>. The
  handler is cut where it awaits \<^verbatim>\<open>setDay\<close>, after it has emptied the caches and the
  gallery.
\<close>

definition clearCacheClick_start :: "app_state \<Rightarrow> app_state" where
  "clearCacheClick_start s =
     (let s1 = clearUrlsCache (clearImageCache s)
      in s1\<lparr>oembedHTML := [], oembedImgs := []\<rparr>)"

definition clearCacheClick_finish :: "app_state \<Rightarrow> app_state" where
  "clearCacheClick_finish s =
     (let s3 = (case dayState s of
                  Some ds \<Rightarrow>
                    (let updatedDayState =
                           ds\<lparr>d_tweetUrl := Some [], d_manualImageUrls := Some [], d_done := False\<rparr>
                     in s\<lparr>days := setDay updatedDayState (days s),
                          dayState := Some updatedDayState\<rparr>)
                | None \<Rightarrow> s)
      in s3\<lparr>cacheStats := getCacheStats s3\<rparr>)"

definition clearCacheClick :: "bool \<Rightarrow> app_state \<Rightarrow> app_state" where
  "clearCacheClick confirmed s =
     (if confirmed then clearCacheClick_finish (clearCacheClick_start s) else s)"

section \<open>Automatic completion\<close>

definition allImages :: "app_state \<Rightarrow> img_src list" where
  "allImages s =
     (let manual = filter (\<lambda>u. u \<noteq> [])
                     (case dayState s of
                        None \<Rightarrow> []
                      | Some ds \<Rightarrow> (case d_manualImageUrls ds of None \<Rightarrow> [] | Some us \<Rightarrow> us))
      in oembedImgs s @ map Remote manual)"

text \<open>
  The effect on \<^verbatim>\<open>allImages.length\<close>. The result says whether it called
  \<^verbatim>\<open>persist({ done: true })\<close>.
\<close>

definition autoDoneEffect :: "app_state \<Rightarrow> bool \<times> app_state" where
  "autoDoneEffect s =
     (let prev = prevImgCount s;
          curr = length (allImages s);
          fire = (prev = 0 \<and> curr > 0
                  \<and> (case dayState s of None \<Rightarrow> False | Some ds \<Rightarrow> \<not> d_done ds));
          s1 = (if fire then persist (\<lambda>r. r\<lparr>d_done := True\<rparr>) s else s)
      in (fire, s1\<lparr>prevImgCount := curr\<rparr>))"

text \<open>
  A render. React runs the effect when \<^verbatim>\<open>allImages.length\<close> differs from its value at the
  render before, which is what the ref holds since the effect ran at mount. The result
  lists the runs of the effect: the count seen and whether the patch was issued.
\<close>

definition render :: "app_state \<Rightarrow> (nat \<times> bool) list \<times> app_state" where
  "render s =
     (if length (allImages s) \<noteq> prevImgCount s
      then (let (fire, s1) = autoDoneEffect s in ([(length (allImages s), fire)], s1))
      else ([], s))"

section \<open>Events\<close>

text \<open>
  \<^verbatim>\<open>getCurrentOctDay\<close>, for the year, the month index and the day of the month that
  \<^verbatim>\<open>new Date()\<close> gives.
\<close>

definition getCurrentOctDay :: "int \<Rightarrow> int \<Rightarrow> int \<Rightarrow> int \<times> int" where
  "getCurrentOctDay y m d = (if m = 9 then (y, min (max d 1) 31) else (y, 1))"

text \<open>The component when it mounts on a database: the initial values of its state cells.\<close>

definition mount :: "int \<times> int \<Rightarrow> app_state \<Rightarrow> app_state" where
  "mount initial db =
     \<lparr>days = days db, images = images db, urls = urls db,
      year = fst initial, selectedDay = snd initial, dayState = None, loading = False,
      oembedHTML = [], oembedImgs = [], manualUrlsInput = [],
      allDaysCache = Map.empty, cacheStats = (0, 0), prevImgCount = 0,
      requests = requests db\<rparr>"

datatype event =
    Mount int int int
  | SelectDay int
  | ToggleDone bool
  | EditTweetUrl string
  | FetchTweet
  | EditManualInput string
  | SaveManualUrls
  | ClearManualUrls
  | Import "file_content option"
  | ClearCache bool

definition toggleDone :: "bool \<Rightarrow> app_state \<Rightarrow> app_state" where
  "toggleDone checked s = persist (\<lambda>r. r\<lparr>d_done := checked\<rparr>) s"

text \<open>
  One user action (or the page load) with the renders it causes, in the environment and at
  the time of the action. An action that sets no state causes no render: the selection of
  the day that is selected already, a fetch without a URL, a cache-clear that is declined,
  an import without a file and an import that is given up with an error, which sets no
  state cell even when it has written rows to the store. At the page load the effect runs
  on the first render, before the day is loaded. \<^verbatim>\<open>handleTweetFetch\<close> renders after its
  synchronous start and again when it is done, the cache-clear after it has emptied the
  gallery and again after it has reset the record. The effect that refreshes \<open>cacheStats\<close>
  after a change of \<open>oembedImgs\<close> is left out.
\<close>

definition step :: "env \<Rightarrow> int \<Rightarrow> event \<Rightarrow> app_state \<Rightarrow> (nat \<times> bool) list \<times> app_state" where
  "step w now e s =
     (case e of
        Mount y m d \<Rightarrow>
          (let s0 = mount (getCurrentOctDay y m d) s;
               (fire, s1) = autoDoneEffect s0;
               (t2, s2) = render (loadDay s1)
           in ((length (allImages s0), fire) # t2, s2))
      | SelectDay d \<Rightarrow>
          (if d = selectedDay s then ([], s) else render (loadDay (s\<lparr>selectedDay := d\<rparr>)))
      | ToggleDone b \<Rightarrow> render (toggleDone b s)
      | EditTweetUrl u \<Rightarrow> render (persist (\<lambda>r. r\<lparr>d_tweetUrl := Some u\<rparr>) s)
      | FetchTweet \<Rightarrow>
          (case fetch_url s of
             None \<Rightarrow> ([], s)
           | Some url \<Rightarrow>
               (let (t1, s1) = render (handleTweetFetch_begin s);
                    (t2, s2) = render (handleTweetFetch_rest w now url s1)
                in (t1 @ t2, s2)))
      | EditManualInput txt \<Rightarrow> render (s\<lparr>manualUrlsInput := txt\<rparr>)
      | SaveManualUrls \<Rightarrow> render (handleManualUrlsSave s)
      | ClearManualUrls \<Rightarrow>
          render (persist (\<lambda>r. r\<lparr>d_manualImageUrls := Some []\<rparr>) (s\<lparr>manualUrlsInput := []\<rparr>))
      | Import file \<Rightarrow>
          (case file of
             None \<Rightarrow> ([], s)
           | Some content \<Rightarrow>
               (case handleImport file s of
                  (Some err, s1) \<Rightarrow> ([], s1)
                | (None, s1) \<Rightarrow> render s1))
      | ClearCache confirmed \<Rightarrow>
          (if confirmed
           then (let (t1, s1) = render (clearCacheClick_start s);
                     (t2, s2) = render (clearCacheClick_finish s1)
                 in (t1 @ t2, s2))
           else ([], s)))"

fun run :: "(env \<times> int \<times> event) list \<Rightarrow> app_state \<Rightarrow> (nat \<times> bool) list \<times> app_state" where
  "run [] s = ([], s)"
| "run ((w, now, e) # es) s =
     (let (t1, s1) = step w now e s;
          (t2, s2) = run es s1
      in (t1 @ t2, s2))"

section \<open>The statements of the specification\<close>

text \<open>
  The relay chain in the specification's words: what one relay produces (its matches,
  normalized, or nothing when the request fails, the status is not a success or the body
  cannot be read), the result of the first relay in the list that produces at least one
  match, and the relays that are asked on the way, up to and including that one.
\<close>

definition relay_yield :: "env \<Rightarrow> string \<Rightarrow> string list" where
  "relay_yield w p =
     (case fetch_of w p of
        None \<Rightarrow> []
      | Some r \<Rightarrow>
          (if res_ok r
           then (case proxy_text p r of
                   None \<Rightarrow> []
                 | Some text \<Rightarrow> map normalize_media_url (uniq (match_media_all text)))
           else []))"

fun first_yield :: "env \<Rightarrow> string list \<Rightarrow> string list" where
  "first_yield w [] = []"
| "first_yield w (p # ps) = (if relay_yield w p = [] then first_yield w ps else relay_yield w p)"

fun relays_asked :: "env \<Rightarrow> string list \<Rightarrow> string list" where
  "relays_asked w [] = []"
| "relays_asked w (p # ps) = (if relay_yield w p = [] then p # relays_asked w ps else [p])"



text \<open>Every entry of the resolved-URL cache holds at least one URL.\<close>

definition cache_nonempty :: "app_state \<Rightarrow> bool" where
  "cache_nonempty s = (\<forall>e\<in>set (urls s). u_imageUrls e \<noteq> [])"

text \<open>
  The observed counts change as an edge-triggered rule allows: the patch is issued only
  by a run of the effect that sees a positive count after a count of zero.
\<close>

fun edge_triggered :: "nat \<Rightarrow> (nat \<times> bool) list \<Rightarrow> bool" where
  "edge_triggered prev [] = True"
| "edge_triggered prev ((n, fire) # t) = ((fire \<longrightarrow> prev = 0 \<and> n > 0) \<and> edge_triggered n t)"

text \<open>The count that the effect saw last: the ref after the runs listed.\<close>

definition last_seen :: "nat \<Rightarrow> (nat \<times> bool) list \<Rightarrow> nat" where
  "last_seen prev t = (if t = [] then prev else fst (last t))"

section \<open>Examples\<close>

text \<open>On 7 October 2025, with day 3 in the store and one cached image.\<close>

definition sample_state :: app_state where
  "sample_state =
     \<lparr>days = [\<lparr>d_id = ''2025-10-3'', d_year = 2025, d_day = 3, d_done = True,
               d_tweetUrl = Some ''https://x.com/a/status/1'',
               d_manualImageUrls = Some [''https://a.com/1.jpg'']\<rparr>],
      images = [\<lparr>i_url = ''https://a.com/1.jpg'', i_blob = [1, 2, 3], i_timestamp = 1000\<rparr>],
      urls = [],
      year = 2025, selectedDay = 7, dayState = None, loading = False,
      oembedHTML = [], oembedImgs = [], manualUrlsInput = [],
      allDaysCache = Map.empty, cacheStats = (0, 0), prevImgCount = 0, requests = []\<rparr>"


definition day3 :: DayRecord where
  "day3 = \<lparr>d_id = ''2025-10-3'', d_year = 2025, d_day = 3, d_done = True,
            d_tweetUrl = Some ''https://x.com/a/status/1'',
            d_manualImageUrls = Some [''https://a.com/1.jpg'']\<rparr>"

definition day5 :: DayRecord where
  "day5 = \<lparr>d_id = ''2025-10-5'', d_year = 2025, d_day = 5, d_done = True,
            d_tweetUrl = Some ''https://x.com/b/status/2'',
            d_manualImageUrls = Some [''https://b.com/2.png'']\<rparr>"

definition two_days_state :: app_state where
  "two_days_state =
     \<lparr>days = [day3, day5],
      images = [\<lparr>i_url = ''https://a.com/1.jpg'', i_blob = [1, 2, 3], i_timestamp = 1000\<rparr>],
      urls = [\<lparr>u_tweetUrl = ''https://x.com/a/status/1'',
               u_imageUrls = [''https://pbs.twimg.com/media/A?format=jpg&name=large''],
               u_timestamp = 1000\<rparr>],
      year = 2025, selectedDay = 3, dayState = Some day3, loading = False,
      oembedHTML = [], oembedImgs = [], manualUrlsInput = ''https://a.com/1.jpg'',
      allDaysCache = [3 \<mapsto> day3, 5 \<mapsto> day5], cacheStats = (1, 1), prevImgCount = 1,
      requests = []\<rparr>"

text \<open>
  A relay's answer with two media URLs, one of them twice and in three kinds of context,
  and a URL of another host.
\<close>

definition sample_text :: string where
  "sample_text =
     ''img src='' @ [CHR 0x22] @ ''https://pbs.twimg.com/media/ABC123?format=jpg&name=small''
       @ [CHR 0x22] @ '' other https://example.com/pic.jpg''
       @ '' https://pbs.twimg.com/media/XYZ789?format=png&name=orig''
       @ '' again (https://pbs.twimg.com/media/ABC123?format=jpg&name=small)''"

definition sample_response :: http_response where
  "sample_response = \<lparr>res_ok = True, res_text = sample_text, res_json = NotJSON, res_blob = []\<rparr>"

definition relay_env :: env where
  "relay_env =
     \<lparr>fetch_of = (\<lambda>u. if u = ''https://r.jina.ai/http://x.com/u/status/1''
                         then Some sample_response else None),
      img_srcs_of = (\<lambda>html. [])\<rparr>"

text \<open>
  A session on day 7 of 2025, saved in the store beside day 3: whether it is done, its
  manual images, the text in the input box and the count that the effect saw last.
\<close>

definition day7 :: "bool \<Rightarrow> string list \<Rightarrow> DayRecord" where
  "day7 b us = \<lparr>d_id = ''2025-10-7'', d_year = 2025, d_day = 7, d_done = b,
                d_tweetUrl = Some [], d_manualImageUrls = Some us\<rparr>"

definition session_state :: "bool \<Rightarrow> string list \<Rightarrow> string \<Rightarrow> nat \<Rightarrow> app_state" where
  "session_state b us inp n =
     \<lparr>days = [day3, day7 b us], images = [], urls = [],
      year = 2025, selectedDay = 7, dayState = Some (day7 b us), loading = False,
      oembedHTML = [], oembedImgs = [], manualUrlsInput = inp,
      allDaysCache = [3 \<mapsto> day3, 7 \<mapsto> day7 b us], cacheStats = (0, 0), prevImgCount = n,
      requests = []\<rparr>"

text \<open>The same session after the user has gone to day 4, which has no record.\<close>

definition away_state :: "bool \<Rightarrow> string list \<Rightarrow> app_state" where
  "away_state b us =
     (session_state b us [] 0)\<lparr>selectedDay := 4, dayState := Some (default_day 2025 4)\<rparr>"







section \<open>Properties\<close>

lemma split_chars_nonempty: "split_chars sep s \<noteq> []"
  by (induction s) (auto split: list.splits)

lemma split_chars_append_sep:
  "sep c \<Longrightarrow> split_chars sep (a @ c # b) = split_chars sep a @ split_chars sep b"
proof (induction a)
  case Nil
  then show ?case by simp
next
  case (Cons x a)
  obtain w ws where "split_chars sep a = w # ws"
    using split_chars_nonempty [of sep a] by (cases "split_chars sep a") auto
  with Cons show ?case by simp
qed

lemma parseManualUrls_append_sep:
  "c = CHR 0x0A \<or> c = CHR '','' \<Longrightarrow>
   parseManualUrls (a @ c # b) = parseManualUrls a @ parseManualUrls b"
  unfolding parseManualUrls_def
  by (subst split_chars_append_sep) auto

lemma split_chars_no_sep: "w \<in> set (split_chars sep s) \<Longrightarrow> c \<in> set w \<Longrightarrow> \<not> sep c"
proof (induction s arbitrary: w)
  case Nil
  then show ?case by simp
next
  case (Cons x s)
  obtain v vs where v: "split_chars sep s = v # vs"
    using split_chars_nonempty [of sep s] by (cases "split_chars sep s") auto
  show ?case
  proof (cases "sep x")
    case True
    with Cons show ?thesis by auto
  next
    case False
    with Cons.prems v have "w = x # v \<or> w \<in> set vs"
      by simp
    then show ?thesis
    proof
      assume "w = x # v"
      with Cons.prems(2) have "c = x \<or> c \<in> set v" by simp
      then show ?thesis
        using False Cons.IH [of v] v by auto
    next
      assume "w \<in> set vs"
      then show ?thesis
        using Cons.IH [of w] v Cons.prems(2) by simp
    qed
  qed
qed

lemma split_chars_plain: "\<forall>c\<in>set s. \<not> sep c \<Longrightarrow> split_chars sep s = [s]"
  by (induction s) auto

lemma set_trim: "set (trim s) \<subseteq> set s"
proof -
  have "set (trim s) \<subseteq> set (dropWhile isWhiteSpace s)"
    unfolding trim_def using set_dropWhileD by fastforce
  also have "\<dots> \<subseteq> set s"
    using set_dropWhileD by fastforce
  finally show ?thesis .
qed

lemma trim_hd: "trim s \<noteq> [] \<Longrightarrow> \<not> isWhiteSpace (hd (trim s))"
proof -
  assume n: "trim s \<noteq> []"
  define t where "t = dropWhile isWhiteSpace s"
  define r where "r = dropWhile isWhiteSpace (rev t)"
  have tr: "trim s = rev r"
    by (simp add: trim_def t_def r_def)
  with n have rn: "r \<noteq> []" by simp
  then have tn: "t \<noteq> []"
    by (auto simp: r_def)
  have "\<exists>p. rev t = p @ r"
    unfolding r_def by (metis takeWhile_dropWhile_id)
  then obtain p where p: "rev t = p @ r" ..
  then have "t = rev r @ rev p"
    by (metis rev_append rev_rev_ident)
  with rn have "hd t = hd (rev r)"
    by simp
  moreover have "\<not> isWhiteSpace (hd t)"
    using tn unfolding t_def by (rule hd_dropWhile)
  ultimately show ?thesis
    by (simp add: tr)
qed

lemma trim_last: "trim s \<noteq> [] \<Longrightarrow> \<not> isWhiteSpace (last (trim s))"
proof -
  assume n: "trim s \<noteq> []"
  define r where "r = dropWhile isWhiteSpace (rev (dropWhile isWhiteSpace s))"
  have tr: "trim s = rev r"
    by (simp add: trim_def r_def)
  with n have rn: "r \<noteq> []" by simp
  then have "\<not> isWhiteSpace (hd r)"
    unfolding r_def by (rule hd_dropWhile)
  then show ?thesis
    using rn by (simp add: tr last_rev)
qed

lemma trim_padded:
  assumes "u \<noteq> []" "\<not> isWhiteSpace (hd u)" "\<not> isWhiteSpace (last u)"
    and "\<forall>c\<in>set a. isWhiteSpace c" "\<forall>c\<in>set b. isWhiteSpace c"
  shows "trim (a @ u @ b) = u"
proof -
  have "dropWhile isWhiteSpace (a @ u @ b) = dropWhile isWhiteSpace (u @ b)"
    by (rule dropWhile_append2) (use assms(4) in auto)
  also have "\<dots> = u @ b"
    using assms(1,2) by (cases u) simp_all
  finally have 1: "dropWhile isWhiteSpace (a @ u @ b) = u @ b" .
  have r: "rev u \<noteq> []" "\<not> isWhiteSpace (hd (rev u))"
    using assms(1,3) by (simp_all add: hd_rev)
  have "dropWhile isWhiteSpace (rev b @ rev u) = dropWhile isWhiteSpace (rev u)"
    by (rule dropWhile_append2) (use assms(5) in auto)
  also have "\<dots> = rev u"
    using r by (cases "rev u") simp_all
  finally have 2: "dropWhile isWhiteSpace (rev b @ rev u) = rev u" .
  show ?thesis
    by (simp add: trim_def 1 2)
qed

lemma parseManualUrls_entry:
  assumes "e \<in> set (parseManualUrls input)"
  shows "e \<noteq> [] \<and> \<not> isWhiteSpace (hd e) \<and> \<not> isWhiteSpace (last e)
         \<and> CHR '','' \<notin> set e \<and> CHR 0x0A \<notin> set e"
proof -
  from assms obtain w where w: "w \<in> set (split_chars (\<lambda>c. c = CHR 0x0A \<or> c = CHR '','') input)"
    and e: "e = trim w" and n: "e \<noteq> []"
    by (auto simp: parseManualUrls_def)
  have "\<forall>c\<in>set w. \<not> (c = CHR 0x0A \<or> c = CHR '','')"
    using split_chars_no_sep [OF w] by blast
  then have "\<forall>c\<in>set e. \<not> (c = CHR 0x0A \<or> c = CHR '','')"
    using set_trim [of w] e by blast
  then show ?thesis
    using n trim_hd [of w] trim_last [of w] e by auto
qed

lemma parseManualUrls_padded:
  assumes "u \<noteq> []" "\<not> isWhiteSpace (hd u)" "\<not> isWhiteSpace (last u)"
    and "CHR '','' \<notin> set u" "CHR 0x0A \<notin> set u"
    and "\<forall>c\<in>set a. isWhiteSpace c \<and> c \<noteq> CHR 0x0A" "\<forall>c\<in>set b. isWhiteSpace c \<and> c \<noteq> CHR 0x0A"
  shows "parseManualUrls (a @ u @ b) = [u]"
proof -
  have ws: "\<not> isWhiteSpace CHR '',''"
    by (simp add: isWhiteSpace_def)
  have "\<forall>c\<in>set (a @ u @ b). \<not> (c = CHR 0x0A \<or> c = CHR '','')"
    using assms(4-7) ws by auto
  then have "split_chars (\<lambda>c. c = CHR 0x0A \<or> c = CHR '','') (a @ u @ b) = [a @ u @ b]"
    by (rule split_chars_plain)
  moreover have "trim (a @ u @ b) = u"
    using assms by (intro trim_padded) auto
  ultimately show ?thesis
    using assms(1) by (simp add: parseManualUrls_def)
qed

lemma parseManualUrls_blank:
  assumes "\<forall>c\<in>set a. isWhiteSpace c \<and> c \<noteq> CHR 0x0A"
  shows "parseManualUrls a = []"
proof -
  have ws: "\<not> isWhiteSpace CHR '',''"
    by (simp add: isWhiteSpace_def)
  have "\<forall>c\<in>set a. \<not> (c = CHR 0x0A \<or> c = CHR '','')"
    using assms ws by auto
  then have "split_chars (\<lambda>c. c = CHR 0x0A \<or> c = CHR '','') a = [a]"
    by (rule split_chars_plain)
  moreover have "trim a = []"
    using assms by (auto simp: trim_def dropWhile_eq_Nil_conv dest: set_dropWhileD)
  ultimately show ?thesis
    by (simp add: parseManualUrls_def)
qed


text \<open>
  C9. Parsing the manual-URLs input splits on commas and newlines, trims each piece and drops
  the empty pieces. The input of the self-test, with a comma followed by a newline between
  the two URLs, gives exactly the two URLs, and so does the same input with spaces and tabs
  around the URLs, a line of white space between them and a trailing comma. For every
  input, no entry of the result is empty, none begins or ends with white space, and none
  holds a comma or a newline. A piece that is a text without separators and without white
  space at its ends, padded with white space on either side, gives that text as its one
  entry; a piece of white space gives no entry. A comma or a newline only separates (the
  entries of \<open>a,b\<close> are those of \<open>a\<close> followed by those of \<open>b\<close>), so a trailing comma and a
  blank line add no entry.
\<close>

theorem manual_urls_parse:
  "parseManualUrls (''https://a.com/1.jpg,'' @ [CHR 0x0A] @ ''https://b.com/2.png'')
     = [''https://a.com/1.jpg'', ''https://b.com/2.png'']
   \<and> parseManualUrls ('' https://a.com/1.jpg  ,'' @ [CHR 0x0A, CHR 0x09, CHR 0x20, CHR 0x0A]
                         @ ''  https://b.com/2.png '' @ [CHR 0x09] @ '','')
     = [''https://a.com/1.jpg'', ''https://b.com/2.png'']
   \<and> [] \<notin> set (parseManualUrls input)
   \<and> (\<forall>e\<in>set (parseManualUrls input).
         \<not> isWhiteSpace (hd e) \<and> \<not> isWhiteSpace (last e)
         \<and> CHR '','' \<notin> set e \<and> CHR 0x0A \<notin> set e)
   \<and> (u \<noteq> [] \<and> \<not> isWhiteSpace (hd u) \<and> \<not> isWhiteSpace (last u)
        \<and> CHR '','' \<notin> set u \<and> CHR 0x0A \<notin> set u
        \<and> (\<forall>c\<in>set p. isWhiteSpace c \<and> c \<noteq> CHR 0x0A)
        \<and> (\<forall>c\<in>set q. isWhiteSpace c \<and> c \<noteq> CHR 0x0A)
       \<longrightarrow> parseManualUrls (p @ u @ q) = [u])
   \<and> ((\<forall>c\<in>set p. isWhiteSpace c \<and> c \<noteq> CHR 0x0A) \<longrightarrow> parseManualUrls p = [])
   \<and> parseManualUrls (a @ '','' @ b) = parseManualUrls a @ parseManualUrls b
   \<and> parseManualUrls (a @ [CHR 0x0A] @ b) = parseManualUrls a @ parseManualUrls b
   \<and> parseManualUrls (a @ '','') = parseManualUrls a
   \<and> parseManualUrls (a @ [CHR 0x0A, CHR 0x0A] @ b) = parseManualUrls a @ parseManualUrls b"
proof -
  have e: "parseManualUrls [] = []"
    by (simp add: parseManualUrls_def trim_def)
  have 1: "parseManualUrls (''https://a.com/1.jpg,'' @ [CHR 0x0A] @ ''https://b.com/2.png'')
     = [''https://a.com/1.jpg'', ''https://b.com/2.png'']"
    by (simp add: parseManualUrls_def trim_def isWhiteSpace_def)
  have 2: "parseManualUrls ('' https://a.com/1.jpg  ,'' @ [CHR 0x0A, CHR 0x09, CHR 0x20, CHR 0x0A]
                         @ ''  https://b.com/2.png '' @ [CHR 0x09] @ '','')
     = [''https://a.com/1.jpg'', ''https://b.com/2.png'']"
    by (simp add: parseManualUrls_def trim_def isWhiteSpace_def)
  have 3: "[] \<notin> set (parseManualUrls input)"
    by (simp add: parseManualUrls_def)
  have 4: "\<forall>e\<in>set (parseManualUrls input).
         \<not> isWhiteSpace (hd e) \<and> \<not> isWhiteSpace (last e)
         \<and> CHR '','' \<notin> set e \<and> CHR 0x0A \<notin> set e"
    using parseManualUrls_entry [of _ input] by blast
  have 5: "u \<noteq> [] \<and> \<not> isWhiteSpace (hd u) \<and> \<not> isWhiteSpace (last u)
        \<and> CHR '','' \<notin> set u \<and> CHR 0x0A \<notin> set u
        \<and> (\<forall>c\<in>set p. isWhiteSpace c \<and> c \<noteq> CHR 0x0A)
        \<and> (\<forall>c\<in>set q. isWhiteSpace c \<and> c \<noteq> CHR 0x0A)
       \<longrightarrow> parseManualUrls (p @ u @ q) = [u]"
    using parseManualUrls_padded [of u p q] by blast
  have 6: "(\<forall>c\<in>set p. isWhiteSpace c \<and> c \<noteq> CHR 0x0A) \<longrightarrow> parseManualUrls p = []"
    using parseManualUrls_blank [of p] by blast
  have 7: "parseManualUrls (a @ '','' @ b) = parseManualUrls a @ parseManualUrls b"
    using parseManualUrls_append_sep [of "CHR '',''" a b] by simp
  have 8: "parseManualUrls (a @ [CHR 0x0A] @ b) = parseManualUrls a @ parseManualUrls b"
    using parseManualUrls_append_sep [of "CHR 0x0A" a b] by simp
  have 9: "parseManualUrls (a @ '','') = parseManualUrls a"
    using parseManualUrls_append_sep [of "CHR '',''" a "[]"] e by simp
  have 10: "parseManualUrls (a @ [CHR 0x0A, CHR 0x0A] @ b) = parseManualUrls a @ parseManualUrls b"
    using parseManualUrls_append_sep [of "CHR 0x0A" a "CHR 0x0A # b"]
      parseManualUrls_append_sep [of "CHR 0x0A" "[]" b] e by simp
  from 1 2 3 4 5 6 7 8 9 10 show ?thesis
    by blast
qed

theorem manual_urls_parse_witness:
  "''https://a.com/1.jpg'' \<in> set (parseManualUrls (''  https://a.com/1.jpg '' @ [CHR 0x09]))
   \<and> \<not> isWhiteSpace (hd ''https://a.com/1.jpg'') \<and> \<not> isWhiteSpace (last ''https://a.com/1.jpg'')
   \<and> CHR '','' \<notin> set ''https://a.com/1.jpg'' \<and> CHR 0x0A \<notin> set ''https://a.com/1.jpg''
   \<and> parseManualUrls (''  '' @ ''https://a.com/1.jpg'' @ ('' '' @ [CHR 0x09])) = [''https://a.com/1.jpg'']
   \<and> parseManualUrls ('' '' @ [CHR 0x09]) = []"
proof -
  have w: "\<forall>c\<in>set ''  ''. isWhiteSpace c \<and> c \<noteq> CHR 0x0A"
    "\<forall>c\<in>set ('' '' @ [CHR 0x09]). isWhiteSpace c \<and> c \<noteq> CHR 0x0A"
    by (simp_all add: isWhiteSpace_def)
  have u: "''https://a.com/1.jpg'' \<noteq> [] \<and> \<not> isWhiteSpace (hd ''https://a.com/1.jpg'')
        \<and> \<not> isWhiteSpace (last ''https://a.com/1.jpg'')
        \<and> CHR '','' \<notin> set ''https://a.com/1.jpg'' \<and> CHR 0x0A \<notin> set ''https://a.com/1.jpg''"
    by (simp add: isWhiteSpace_def)
  note t = manual_urls_parse [of "''  https://a.com/1.jpg '' @ [CHR 0x09]" "''https://a.com/1.jpg''"
      "''  ''" "'' '' @ [CHR 0x09]"]
  have p: "parseManualUrls (''  '' @ ''https://a.com/1.jpg'' @ ('' '' @ [CHR 0x09])) = [''https://a.com/1.jpg'']"
    using t [THEN conjunct2, THEN conjunct2, THEN conjunct2, THEN conjunct2, THEN conjunct1,
        rule_format] u w by blast
  have m: "''https://a.com/1.jpg'' \<in> set (parseManualUrls (''  https://a.com/1.jpg '' @ [CHR 0x09]))"
    using p by simp
  have b: "parseManualUrls ('' '' @ [CHR 0x09]) = []"
    using manual_urls_parse [of _ _ "'' '' @ [CHR 0x09]", THEN conjunct2, THEN conjunct2,
        THEN conjunct2, THEN conjunct2, THEN conjunct2, THEN conjunct1, rule_format] w(2)
    by blast
  have h: "\<not> isWhiteSpace (hd ''https://a.com/1.jpg'') \<and> \<not> isWhiteSpace (last ''https://a.com/1.jpg'')
     \<and> CHR '','' \<notin> set ''https://a.com/1.jpg'' \<and> CHR 0x0A \<notin> set ''https://a.com/1.jpg''"
    using t [THEN conjunct2, THEN conjunct2, THEN conjunct2, THEN conjunct1, rule_format, OF m] .
  from m h p b show ?thesis
    by blast
qed

text \<open>
  C7. Loading a pair \<open>(year, day)\<close> that has no record in the store (in particular for a day
  in 1..31) makes the current record the default one: \<open>done\<close> is false, \<open>manualImageUrls\<close> and
  \<open>tweetUrl\<close> are empty, and the id is \<open>idFor year day\<close>, the year, \<open>-10-\<close> and the day. The load
  writes nothing: the store is as before and still has no record for the pair.
\<close>

theorem load_unseen_default:
  assumes "getDay (days s) (year s) (selectedDay s) = None"
  shows "dayState (loadDay s)
           = Some \<lparr>d_id = idFor (year s) (selectedDay s), d_year = year s, d_day = selectedDay s,
                   d_done = False, d_tweetUrl = Some [], d_manualImageUrls = Some []\<rparr>
         \<and> idFor (year s) (selectedDay s)
             = string_of_int (year s) @ ''-10-'' @ string_of_int (selectedDay s)
         \<and> days (loadDay s) = days s
         \<and> getDay (days (loadDay s)) (year s) (selectedDay s) = None"
  using assms by (simp add: loadDay_def default_day_def idFor_def Let_def)

theorem load_unseen_default_witness:
  "getDay (days sample_state) (year sample_state) (selectedDay sample_state) = None
   \<and> dayState (loadDay sample_state)
       = Some \<lparr>d_id = ''2025-10-7'', d_year = 2025, d_day = 7,
               d_done = False, d_tweetUrl = Some [], d_manualImageUrls = Some []\<rparr>
   \<and> days (loadDay sample_state) = days sample_state"
proof -
  have i: "idFor 2025 7 = ''2025-10-7''"
    by code_simp
  have h: "getDay (days sample_state) (year sample_state) (selectedDay sample_state) = None"
    by (simp add: sample_state_def getDay_def store_get_def i)
  have y: "year sample_state = 2025" "selectedDay sample_state = 7"
    by (simp_all add: sample_state_def)
  show ?thesis
    using h load_unseen_default [OF h] by (simp add: y i)
qed

text \<open>
  C8. An image cache entry whose timestamp is more than the TTL of one year
  (365 days, in milliseconds) before the time of the read is a miss: the read returns nothing.
  The read leaves the store as it was, so the expired entry is still there.
\<close>

theorem expired_image_is_miss:
  assumes "store_get i_url (images s) url = Some e"
    and "now - i_timestamp e > CACHE_TTL"
  shows "fst (getImageFromCache now url s) = None
         \<and> snd (getImageFromCache now url s) = s
         \<and> store_get i_url (images (snd (getImageFromCache now url s))) url = Some e
         \<and> CACHE_TTL = 31536000000"
  using assms by (simp add: getImageFromCache_def CACHE_TTL_def)

theorem expired_image_is_miss_witness:
  "store_get i_url (images sample_state) ''https://a.com/1.jpg''
     = Some \<lparr>i_url = ''https://a.com/1.jpg'', i_blob = [1, 2, 3], i_timestamp = 1000\<rparr>
   \<and> 31536001001 - 1000 > CACHE_TTL
   \<and> fst (getImageFromCache 31536001001 ''https://a.com/1.jpg'' sample_state) = None
   \<and> images (snd (getImageFromCache 31536001001 ''https://a.com/1.jpg'' sample_state))
       = images sample_state"
proof -
  have g: "store_get i_url (images sample_state) ''https://a.com/1.jpg''
     = Some \<lparr>i_url = ''https://a.com/1.jpg'', i_blob = [1, 2, 3], i_timestamp = 1000\<rparr>"
    by (simp add: sample_state_def store_get_def)
  have t: "31536001001 - i_timestamp \<lparr>i_url = ''https://a.com/1.jpg'', i_blob = [1, 2, 3], i_timestamp = 1000\<rparr>
             > CACHE_TTL"
    by (simp add: CACHE_TTL_def)
  show ?thesis
    using g t expired_image_is_miss [OF g t] by simp
qed


lemma find_insort_key_other:
  "key d \<noteq> k \<Longrightarrow> find (\<lambda>r. key r = k) (insort_key key d xs) = find (\<lambda>r. key r = k) xs"
  by (induction xs) auto

lemma find_insort_key_same:
  "find (\<lambda>r. key r = key d) xs = None \<Longrightarrow> find (\<lambda>r. key r = key d) (insort_key key d xs) = Some d"
  by (induction xs) (auto split: if_splits)

lemma find_filter_other:
  "k \<noteq> k' \<Longrightarrow> find (\<lambda>r. key r = k) (filter (\<lambda>r. key r \<noteq> k') xs) = find (\<lambda>r. key r = k) xs"
  by (induction xs) auto

lemma find_filter_same:
  "find (\<lambda>r. key r = k) (filter (\<lambda>r. key r \<noteq> k) xs) = None"
  by (induction xs) auto

lemma store_get_put:
  "store_get key (store_put key d rows) k = (if k = key d then Some d else store_get key rows k)"
  unfolding store_get_def store_put_def
  by (auto simp: find_insort_key_other find_insort_key_same find_filter_other find_filter_same)

lemma distinct_insort_key_fresh:
  "key d \<notin> key ` set xs \<Longrightarrow> distinct (map key xs) \<Longrightarrow> distinct (map key (insort_key key d xs))"
  by (induction xs) (auto simp: set_insort_key)

lemma store_ok_put: "store_ok key rows \<Longrightarrow> store_ok key (store_put key d rows)"
  unfolding store_ok_def store_put_def
  by (auto simp: sorted_insort_key sorted_filter distinct_map_filter intro!: distinct_insort_key_fresh)








lemma store_get_Cons:
  "store_get key (x # xs) k = (if key x = k then Some x else store_get key xs k)"
  by (simp add: store_get_def)

lemma store_get_Nil: "store_get key [] k = None"
  by (simp add: store_get_def)


lemma put_all_ok:
  "store_ok d_id rows \<Longrightarrow> store_ok d_id (snd (put_all items rows))"
  by (induction items rows rule: put_all.induct) (auto simp: store_ok_put)



lemma clearCacheClick_days:
  "days (clearCacheClick True s)
     = (case dayState s of
          None \<Rightarrow> days s
        | Some c \<Rightarrow> setDay (c\<lparr>d_tweetUrl := Some [], d_manualImageUrls := Some [], d_done := False\<rparr>) (days s))"
  by (simp add: clearCacheClick_def clearCacheClick_start_def clearCacheClick_finish_def
      clearUrlsCache_def clearImageCache_def Let_def split: option.splits)

text \<open>
  C5 (amended). The confirmed cache-clear deletes no day record: an id found in the store
  before is found after. It resets the current record only: under the id of the current
  record the store then holds that record with \<open>tweetUrl\<close> and \<open>manualImageUrls\<close> empty,
  \<open>done\<close> false and \<open>id\<close>, \<open>year\<close>, \<open>day\<close> as they were; every other record is as before.
  Both caches are empty afterwards, and a declined confirmation changes nothing.
\<close>

theorem clear_cache_days:
  "store_get d_id (days (clearCacheClick True s)) k
     = (case dayState s of
          None \<Rightarrow> store_get d_id (days s) k
        | Some c \<Rightarrow>
            if k = d_id c
            then Some \<lparr>d_id = d_id c, d_year = d_year c, d_day = d_day c, d_done = False,
                       d_tweetUrl = Some [], d_manualImageUrls = Some []\<rparr>
            else store_get d_id (days s) k)
   \<and> (store_get d_id (days s) k \<noteq> None \<longrightarrow> store_get d_id (days (clearCacheClick True s)) k \<noteq> None)
   \<and> images (clearCacheClick True s) = []
   \<and> urls (clearCacheClick True s) = []
   \<and> clearCacheClick False s = s"
proof -
  have 1: "store_get d_id (days (clearCacheClick True s)) k
     = (case dayState s of
          None \<Rightarrow> store_get d_id (days s) k
        | Some c \<Rightarrow>
            if k = d_id c
            then Some \<lparr>d_id = d_id c, d_year = d_year c, d_day = d_day c, d_done = False,
                       d_tweetUrl = Some [], d_manualImageUrls = Some []\<rparr>
            else store_get d_id (days s) k)"
    by (simp add: clearCacheClick_days setDay_def store_get_put split: option.splits)
  have 2: "store_get d_id (days s) k \<noteq> None \<longrightarrow> store_get d_id (days (clearCacheClick True s)) k \<noteq> None"
    unfolding 1 by (simp split: option.splits)
  have 3: "images (clearCacheClick True s) = []" "urls (clearCacheClick True s) = []"
    by (simp_all add: clearCacheClick_def clearCacheClick_start_def clearCacheClick_finish_def
        clearUrlsCache_def clearImageCache_def store_clear_def Let_def split: option.splits)
  have 4: "clearCacheClick False s = s"
    by (simp add: clearCacheClick_def)
  from 1 2 3 4 show ?thesis by simp
qed

text \<open>
  C5 as stated fails: with day 3 loaded, the record of day 5 is in the store before the
  cache-clear and is unchanged after it, still done, with its tweet URL and manual image.
\<close>

theorem clear_cache_other_day_counterexample:
  "store_get d_id (days two_days_state) ''2025-10-5'' = Some day5
   \<and> store_get d_id (days (clearCacheClick True two_days_state)) ''2025-10-5'' = Some day5
   \<and> d_done day5
   \<and> d_tweetUrl day5 = Some ''https://x.com/b/status/2''
   \<and> d_manualImageUrls day5 = Some [''https://b.com/2.png'']"
proof -
  have a: "store_get d_id (days two_days_state) ''2025-10-5'' = Some day5"
    by (simp add: two_days_state_def store_get_def day3_def day5_def)
  have b: "store_get d_id (days (clearCacheClick True two_days_state)) ''2025-10-5'' = Some day5"
    using a by (simp add: clearCacheClick_days setDay_def store_get_put two_days_state_def day3_def)
  show ?thesis
    using a b by (simp add: day5_def)
qed

theorem clear_cache_days_witness:
  "store_get d_id (days two_days_state) ''2025-10-3'' \<noteq> None
   \<and> store_get d_id (days (clearCacheClick True two_days_state)) ''2025-10-3''
       = Some \<lparr>d_id = ''2025-10-3'', d_year = 2025, d_day = 3, d_done = False,
               d_tweetUrl = Some [], d_manualImageUrls = Some []\<rparr>"
proof -
  have a: "store_get d_id (days two_days_state) ''2025-10-3'' \<noteq> None"
    by (simp add: two_days_state_def store_get_def day3_def day5_def)
  show ?thesis
    using a clear_cache_days [of two_days_state "''2025-10-3''"]
    by (simp add: two_days_state_def day3_def)
qed




lemma uniq_Nil: "uniq [] = []"
  by (simp add: uniq_def)

























lemma sample_matches:
  "match_media_all sample_text
     = [''https://pbs.twimg.com/media/ABC123?format=jpg&name=small'',
        ''https://pbs.twimg.com/media/XYZ789?format=png&name=orig'',
        ''https://pbs.twimg.com/media/ABC123?format=jpg&name=small'']"
  by code_simp

lemma sample_proxies:
  "proxies ''https://x.com/u/status/1''
     = [''https://r.jina.ai/http://x.com/u/status/1'',
        ''https://api.allorigins.win/get?url=https%3A%2F%2Fx.com%2Fu%2Fstatus%2F1'',
        ''https://cors-anywhere.herokuapp.com/https://x.com/u/status/1'']"
  by code_simp













lemma try_proxies_spec:
  "try_proxies w ps s = (first_yield w ps, s\<lparr>requests := requests s @ relays_asked w ps\<rparr>)"
proof (induction ps arbitrary: s)
  case Nil
  then show ?case by simp
next
  case (Cons p ps)
  show ?case
    by (cases "fetch_of w p")
       (auto simp: Cons.IH fetch_def relay_yield_def uniq_def Let_def split: option.splits)
qed


lemma oembed_images_requests:
  "requests (snd (oembed_images w url s))
     = requests s @ [''https://publish.x.com/oembed?omit_script=0&hide_thread=1&url='' @ encodeURIComponent url]"
  by (simp add: oembed_images_def fetch_def Let_def split: option.splits json_body.splits)

lemma oembed_images_urls: "urls (snd (oembed_images w url s)) = urls s"
  by (simp add: oembed_images_def fetch_def Let_def split: option.splits json_body.splits)

lemma oembed_images_fst: "fst (oembed_images w url s) = fst (oembed_images w url t)"
  by (simp add: oembed_images_def fetch_def Let_def split: option.splits json_body.splits)

lemma resolve_uncached_fst:
  "fst (resolve_uncached w now url s)
     = (if fst (oembed_images w url s) \<noteq> [] then fst (oembed_images w url s)
        else if first_yield w (proxies url) \<noteq> [] then first_yield w (proxies url)
        else getKnownTweetImages url)"
  by (simp add: resolve_uncached_def fetchTweetImagesViaProxy_def try_proxies_spec Let_def
      split: prod.splits)

lemma resolve_uncached_requests:
  "requests (snd (resolve_uncached w now url s))
     = requests s
       @ [''https://publish.x.com/oembed?omit_script=0&hide_thread=1&url='' @ encodeURIComponent url]
       @ (if fst (oembed_images w url s) = [] then relays_asked w (proxies url) else [])"
  using oembed_images_requests [of w url s]
  by (auto simp: resolve_uncached_def fetchTweetImagesViaProxy_def try_proxies_spec Let_def
      saveTweetUrlsToCache_def split: prod.splits)

lemma resolve_uncached_urls:
  "urls (snd (resolve_uncached w now url s))
     = (if fst (resolve_uncached w now url s) \<noteq> []
        then store_put u_tweetUrl
               \<lparr>u_tweetUrl = url, u_imageUrls = fst (resolve_uncached w now url s), u_timestamp = now\<rparr>
               (urls s)
        else urls s)"
  using oembed_images_urls [of w url s]
  by (auto simp: resolve_uncached_def fetchTweetImagesViaProxy_def try_proxies_spec Let_def
      saveTweetUrlsToCache_def split: prod.splits)

lemma resolve_images_hit:
  "store_get u_tweetUrl (urls s) url = Some e \<Longrightarrow> \<not> now - u_timestamp e > CACHE_TTL \<Longrightarrow>
   u_imageUrls e \<noteq> [] \<Longrightarrow> resolve_images w now url s = (u_imageUrls e, s)"
  by (simp add: resolve_images_def getTweetUrlsFromCache_def CACHE_TTL_def)

lemma resolve_images_miss:
  "store_get u_tweetUrl (urls s) url = None
     \<or> (\<exists>e. store_get u_tweetUrl (urls s) url = Some e \<and> now - u_timestamp e > CACHE_TTL) \<Longrightarrow>
   resolve_images w now url s = resolve_uncached w now url s"
  by (auto simp: resolve_images_def getTweetUrlsFromCache_def CACHE_TTL_def)

lemma store_get_in_set: "store_get key rows k = Some e \<Longrightarrow> e \<in> set rows \<and> key e = k"
  by (auto simp: store_get_def find_Some_iff)

lemma downloadAndCacheImage_urls: "urls (snd (downloadAndCacheImage w now u s)) = urls s"
  by (simp add: downloadAndCacheImage_def getImageFromCache_def fetch_def saveImageToCache_def Let_def
      split: option.splits)

lemma process_images_urls: "urls (snd (process_images w now us s)) = urls s"
  by (induction us arbitrary: s) (simp_all add: downloadAndCacheImage_urls split_beta Let_def)

lemma handleTweetFetch_rest_urls:
  "urls (handleTweetFetch_rest w now url s) = urls (snd (resolve_images w now url s))"
  by (simp add: handleTweetFetch_rest_def Let_def process_images_urls split_beta)

lemma handleTweetFetch_rest_imgs:
  "fst (resolve_images w now url s) \<noteq> [] \<Longrightarrow>
   oembedImgs (handleTweetFetch_rest w now url s)
     = fst (process_images w now (fst (resolve_images w now url s)) (snd (resolve_images w now url s)))"
  by (simp add: handleTweetFetch_rest_def Let_def split_beta)


text \<open>
  C1. In a state whose resolved-URL cache holds no empty list, the resolution of a source
  URL runs its strategies in order, and the first that succeeds wins. A cached entry for
  exactly this URL that has not expired is returned and the state is as before: nothing is
  requested. Otherwise the oEmbed endpoint is requested; if it yields no image the relays
  are asked, in the order jina, allorigins, cors-anywhere, up to the first that yields a
  match; if they yield nothing either, the table of known tweets is read. The requests made
  are exactly these. A non-empty result is stored in the cache under the source URL with
  the time of the run, an empty one leaves the cache as it was; the images are processed in
  the state that resolution left, so after the write, and processing keeps the cache.
\<close>

theorem tweet_fetch_strategy_order:
  assumes "cache_nonempty s"
  shows "(store_get u_tweetUrl (urls s) url = Some e \<and> \<not> now - u_timestamp e > CACHE_TTL
            \<longrightarrow> resolve_images w now url s = (u_imageUrls e, s))
         \<and> (store_get u_tweetUrl (urls s) url = None
              \<or> (\<exists>e. store_get u_tweetUrl (urls s) url = Some e \<and> now - u_timestamp e > CACHE_TTL)
            \<longrightarrow> fst (resolve_images w now url s)
                  = (if fst (oembed_images w url s) \<noteq> [] then fst (oembed_images w url s)
                     else if first_yield w (proxies url) \<noteq> [] then first_yield w (proxies url)
                     else getKnownTweetImages url)
                \<and> requests (snd (resolve_images w now url s))
                  = requests s
                    @ [''https://publish.x.com/oembed?omit_script=0&hide_thread=1&url=''
                         @ encodeURIComponent url]
                    @ (if fst (oembed_images w url s) = [] then relays_asked w (proxies url) else [])
                \<and> urls (snd (resolve_images w now url s))
                  = (if fst (resolve_images w now url s) \<noteq> []
                     then store_put u_tweetUrl
                            \<lparr>u_tweetUrl = url, u_imageUrls = fst (resolve_images w now url s),
                             u_timestamp = now\<rparr> (urls s)
                     else urls s)
                \<and> (fst (resolve_images w now url s) \<noteq> []
                     \<longrightarrow> store_get u_tweetUrl (urls (snd (resolve_images w now url s))) url
                          = Some \<lparr>u_tweetUrl = url, u_imageUrls = fst (resolve_images w now url s),
                                  u_timestamp = now\<rparr>))
         \<and> proxies url
             = [''https://r.jina.ai/http://'' @ strip_scheme url,
                ''https://api.allorigins.win/get?url='' @ encodeURIComponent url,
                ''https://cors-anywhere.herokuapp.com/'' @ url]
         \<and> try_proxies w ps s = (first_yield w ps, s\<lparr>requests := requests s @ relays_asked w ps\<rparr>)
         \<and> urls (handleTweetFetch_rest w now url s) = urls (snd (resolve_images w now url s))
         \<and> (fst (resolve_images w now url s) \<noteq> []
              \<longrightarrow> oembedImgs (handleTweetFetch_rest w now url s)
                   = fst (process_images w now (fst (resolve_images w now url s))
                            (snd (resolve_images w now url s))))"
proof -
  have hit: "store_get u_tweetUrl (urls s) url = Some e \<and> \<not> now - u_timestamp e > CACHE_TTL
            \<longrightarrow> resolve_images w now url s = (u_imageUrls e, s)"
  proof (intro impI, elim conjE)
    assume g: "store_get u_tweetUrl (urls s) url = Some e" and t: "\<not> now - u_timestamp e > CACHE_TTL"
    from g have "e \<in> set (urls s)"
      by (simp add: store_get_in_set)
    with assms have "u_imageUrls e \<noteq> []"
      by (simp add: cache_nonempty_def)
    with g t show "resolve_images w now url s = (u_imageUrls e, s)"
      by (rule resolve_images_hit)
  qed
  have miss: "store_get u_tweetUrl (urls s) url = None
              \<or> (\<exists>e. store_get u_tweetUrl (urls s) url = Some e \<and> now - u_timestamp e > CACHE_TTL)
            \<longrightarrow> fst (resolve_images w now url s)
                  = (if fst (oembed_images w url s) \<noteq> [] then fst (oembed_images w url s)
                     else if first_yield w (proxies url) \<noteq> [] then first_yield w (proxies url)
                     else getKnownTweetImages url)
                \<and> requests (snd (resolve_images w now url s))
                  = requests s
                    @ [''https://publish.x.com/oembed?omit_script=0&hide_thread=1&url=''
                         @ encodeURIComponent url]
                    @ (if fst (oembed_images w url s) = [] then relays_asked w (proxies url) else [])
                \<and> urls (snd (resolve_images w now url s))
                  = (if fst (resolve_images w now url s) \<noteq> []
                     then store_put u_tweetUrl
                            \<lparr>u_tweetUrl = url, u_imageUrls = fst (resolve_images w now url s),
                             u_timestamp = now\<rparr> (urls s)
                     else urls s)
                \<and> (fst (resolve_images w now url s) \<noteq> []
                     \<longrightarrow> store_get u_tweetUrl (urls (snd (resolve_images w now url s))) url
                          = Some \<lparr>u_tweetUrl = url, u_imageUrls = fst (resolve_images w now url s),
                                  u_timestamp = now\<rparr>)"
  proof
    assume "store_get u_tweetUrl (urls s) url = None
              \<or> (\<exists>e. store_get u_tweetUrl (urls s) url = Some e \<and> now - u_timestamp e > CACHE_TTL)"
    then have r: "resolve_images w now url s = resolve_uncached w now url s"
      by (rule resolve_images_miss)
    show "fst (resolve_images w now url s)
                  = (if fst (oembed_images w url s) \<noteq> [] then fst (oembed_images w url s)
                     else if first_yield w (proxies url) \<noteq> [] then first_yield w (proxies url)
                     else getKnownTweetImages url)
                \<and> requests (snd (resolve_images w now url s))
                  = requests s
                    @ [''https://publish.x.com/oembed?omit_script=0&hide_thread=1&url=''
                         @ encodeURIComponent url]
                    @ (if fst (oembed_images w url s) = [] then relays_asked w (proxies url) else [])
                \<and> urls (snd (resolve_images w now url s))
                  = (if fst (resolve_images w now url s) \<noteq> []
                     then store_put u_tweetUrl
                            \<lparr>u_tweetUrl = url, u_imageUrls = fst (resolve_images w now url s),
                             u_timestamp = now\<rparr> (urls s)
                     else urls s)
                \<and> (fst (resolve_images w now url s) \<noteq> []
                     \<longrightarrow> store_get u_tweetUrl (urls (snd (resolve_images w now url s))) url
                          = Some \<lparr>u_tweetUrl = url, u_imageUrls = fst (resolve_images w now url s),
                                  u_timestamp = now\<rparr>)"
      unfolding r
      using resolve_uncached_fst [of w now url s] resolve_uncached_requests [of w now url s]
        resolve_uncached_urls [of w now url s]
      by (simp add: store_get_put)
  qed
  have p: "proxies url
             = [''https://r.jina.ai/http://'' @ strip_scheme url,
                ''https://api.allorigins.win/get?url='' @ encodeURIComponent url,
                ''https://cors-anywhere.herokuapp.com/'' @ url]"
    by (simp add: proxies_def)
  from hit miss p try_proxies_spec [of w ps s] handleTweetFetch_rest_urls [of w now url s]
    handleTweetFetch_rest_imgs [of w now url s]
  show ?thesis
    by blast
qed


lemma sample_relay_yield:
  "relay_yield relay_env ''https://r.jina.ai/http://x.com/u/status/1''
     = [''https://pbs.twimg.com/media/ABC123?format=jpg&name=large'',
        ''https://pbs.twimg.com/media/XYZ789?format=jpg&name=large'']"
  by (simp add: relay_yield_def relay_env_def sample_response_def proxy_text_def sample_matches
      uniq_def set_insert_def normalize_media_url_def)

lemma sample_oembed: "fst (oembed_images relay_env ''https://x.com/u/status/1'' s) = []"
  by (simp add: oembed_images_def fetch_def relay_env_def)

theorem tweet_fetch_strategy_order_witness:
  "cache_nonempty two_days_state
   \<and> resolve_images relay_env 2000 ''https://x.com/a/status/1'' two_days_state
       = ([''https://pbs.twimg.com/media/A?format=jpg&name=large''], two_days_state)
   \<and> cache_nonempty sample_state
   \<and> store_get u_tweetUrl (urls sample_state) ''https://x.com/u/status/1'' = None
   \<and> fst (resolve_images relay_env 5000 ''https://x.com/u/status/1'' sample_state)
       = [''https://pbs.twimg.com/media/ABC123?format=jpg&name=large'',
          ''https://pbs.twimg.com/media/XYZ789?format=jpg&name=large'']
   \<and> requests (snd (resolve_images relay_env 5000 ''https://x.com/u/status/1'' sample_state))
       = [''https://publish.x.com/oembed?omit_script=0&hide_thread=1&url=https%3A%2F%2Fx.com%2Fu%2Fstatus%2F1'',
          ''https://r.jina.ai/http://x.com/u/status/1'']
   \<and> store_get u_tweetUrl (urls (snd (resolve_images relay_env 5000 ''https://x.com/u/status/1'' sample_state)))
         ''https://x.com/u/status/1''
       = Some \<lparr>u_tweetUrl = ''https://x.com/u/status/1'',
               u_imageUrls = [''https://pbs.twimg.com/media/ABC123?format=jpg&name=large'',
                              ''https://pbs.twimg.com/media/XYZ789?format=jpg&name=large''],
               u_timestamp = 5000\<rparr>"
proof -
  have c1: "cache_nonempty two_days_state"
    by (simp add: cache_nonempty_def two_days_state_def)
  have g1: "store_get u_tweetUrl (urls two_days_state) ''https://x.com/a/status/1''
              = Some \<lparr>u_tweetUrl = ''https://x.com/a/status/1'',
                      u_imageUrls = [''https://pbs.twimg.com/media/A?format=jpg&name=large''],
                      u_timestamp = 1000\<rparr>"
    by (simp add: two_days_state_def store_get_def)
  have t1: "\<not> 2000 - u_timestamp \<lparr>u_tweetUrl = ''https://x.com/a/status/1'',
                      u_imageUrls = [''https://pbs.twimg.com/media/A?format=jpg&name=large''],
                      u_timestamp = 1000\<rparr> > CACHE_TTL"
    by (simp add: CACHE_TTL_def)
  have hit: "resolve_images relay_env 2000 ''https://x.com/a/status/1'' two_days_state
       = ([''https://pbs.twimg.com/media/A?format=jpg&name=large''], two_days_state)"
    using tweet_fetch_strategy_order [OF c1, THEN conjunct1, rule_format, OF conjI, OF g1 t1]
    by simp
  have c2: "cache_nonempty sample_state"
    by (simp add: cache_nonempty_def sample_state_def)
  have g2: "store_get u_tweetUrl (urls sample_state) ''https://x.com/u/status/1'' = None"
    by (simp add: sample_state_def store_get_def)
  have e: "encodeURIComponent ''https://x.com/u/status/1'' = ''https%3A%2F%2Fx.com%2Fu%2Fstatus%2F1''"
    by code_simp
  have r: "requests sample_state = []"
    by (simp add: sample_state_def)
  note m = tweet_fetch_strategy_order [OF c2, THEN conjunct2, THEN conjunct1, rule_format,
      OF disjI1, OF g2, of relay_env 5000]
  have f: "fst (resolve_images relay_env 5000 ''https://x.com/u/status/1'' sample_state)
       = [''https://pbs.twimg.com/media/ABC123?format=jpg&name=large'',
          ''https://pbs.twimg.com/media/XYZ789?format=jpg&name=large'']"
    using m [THEN conjunct1] by (simp add: sample_oembed sample_proxies sample_relay_yield)
  have q: "requests (snd (resolve_images relay_env 5000 ''https://x.com/u/status/1'' sample_state))
       = [''https://publish.x.com/oembed?omit_script=0&hide_thread=1&url=https%3A%2F%2Fx.com%2Fu%2Fstatus%2F1'',
          ''https://r.jina.ai/http://x.com/u/status/1'']"
    using m [THEN conjunct2, THEN conjunct1]
    by (simp add: sample_oembed sample_proxies sample_relay_yield e r)
  have ne: "fst (resolve_images relay_env 5000 ''https://x.com/u/status/1'' sample_state) \<noteq> []"
    by (simp add: f)
  have u: "store_get u_tweetUrl (urls (snd (resolve_images relay_env 5000 ''https://x.com/u/status/1'' sample_state)))
         ''https://x.com/u/status/1''
       = Some \<lparr>u_tweetUrl = ''https://x.com/u/status/1'',
               u_imageUrls = [''https://pbs.twimg.com/media/ABC123?format=jpg&name=large'',
                              ''https://pbs.twimg.com/media/XYZ789?format=jpg&name=large''],
               u_timestamp = 5000\<rparr>"
    using m [THEN conjunct2, THEN conjunct2, THEN conjunct2, rule_format, OF ne]
    by (simp only: f)
  from c1 hit c2 g2 f q u show ?thesis by blast
qed


lemma set_store_put: "set (store_put key d rows) = insert d {r \<in> set rows. key r \<noteq> key d}"
  by (auto simp: store_put_def set_insort_key)

lemma persist_urls: "urls (persist f s) = urls s"
  by (simp add: persist_def Let_def split: option.splits)

lemma autoDoneEffect_urls: "urls (snd (autoDoneEffect s)) = urls s"
  by (simp add: autoDoneEffect_def Let_def persist_urls)

lemma render_urls: "urls (snd (render s)) = urls s"
  by (simp add: render_def split_beta autoDoneEffect_urls Let_def)

lemma loadDay_urls: "urls (loadDay s) = urls s"
  by (simp add: loadDay_def Let_def)

lemma handleImport_urls: "urls (snd (handleImport file s)) = urls s"
  by (simp add: handleImport_def Let_def split_beta
      split: option.splits file_content.splits import_data.splits)

lemma handleTweetFetch_begin_urls: "urls (handleTweetFetch_begin s) = urls s"
  by (simp add: handleTweetFetch_begin_def split: option.splits)

lemma cache_nonempty_cong: "urls t = urls s \<Longrightarrow> cache_nonempty t = cache_nonempty s"
  by (simp add: cache_nonempty_def)

lemma resolve_uncached_nonempty:
  "cache_nonempty s \<Longrightarrow> cache_nonempty (snd (resolve_uncached w now url s))"
  unfolding cache_nonempty_def resolve_uncached_urls
  by (auto simp: set_store_put)

lemma resolve_images_nonempty:
  "cache_nonempty s \<Longrightarrow> cache_nonempty (snd (resolve_images w now url s))"
  by (auto simp: resolve_images_def getTweetUrlsFromCache_def Let_def resolve_uncached_nonempty
      split: option.splits)

lemma handleTweetFetch_rest_nonempty:
  "cache_nonempty s \<Longrightarrow> cache_nonempty (handleTweetFetch_rest w now url s)"
  using resolve_images_nonempty [of s w now url]
  by (simp add: cache_nonempty_def handleTweetFetch_rest_urls)

lemma clearCacheClick_start_urls: "urls (clearCacheClick_start s) = []"
  by (simp add: clearCacheClick_start_def clearUrlsCache_def clearImageCache_def store_clear_def Let_def)

lemma clearCacheClick_finish_urls: "urls (clearCacheClick_finish s) = urls s"
  by (simp add: clearCacheClick_finish_def Let_def split: option.splits)

lemma render_nonempty: "cache_nonempty (snd (render s)) = cache_nonempty s"
  by (rule cache_nonempty_cong) (rule render_urls)

lemma step_urls_other:
  "e \<noteq> FetchTweet \<Longrightarrow> urls (snd (step w now e s)) = urls s \<or> urls (snd (step w now e s)) = []"
proof (cases e)
  case (Import f)
  have "urls (snd (handleImport f s)) = urls s"
    by (rule handleImport_urls)
  then show ?thesis
    by (cases "handleImport f s")
       (auto simp: Import step_def render_urls split: option.splits)
qed (simp_all add: step_def Let_def split_beta render_urls loadDay_urls autoDoneEffect_urls
        mount_def toggleDone_def persist_urls handleManualUrlsSave_def
        clearCacheClick_finish_urls clearCacheClick_start_urls)

lemma step_nonempty:
  assumes "cache_nonempty s"
  shows "cache_nonempty (snd (step w now e s))"
proof (cases "e = FetchTweet")
  case False
  then show ?thesis
    using step_urls_other [of e w now s] assms by (auto simp: cache_nonempty_def)
next
  case True
  show ?thesis
  proof (cases "fetch_url s")
    case None
    with True assms show ?thesis
      by (simp add: step_def)
  next
    case (Some url)
    have "cache_nonempty (snd (render (handleTweetFetch_begin s)))"
      using assms cache_nonempty_cong [OF handleTweetFetch_begin_urls, of s]
      by (simp add: render_nonempty)
    then have "cache_nonempty (handleTweetFetch_rest w now url (snd (render (handleTweetFetch_begin s))))"
      by (rule handleTweetFetch_rest_nonempty)
    with True Some show ?thesis
      by (simp add: step_def Let_def split_beta render_nonempty)
  qed
qed

lemma run_nonempty: "cache_nonempty s \<Longrightarrow> cache_nonempty (snd (run es s))"
proof (induction es arbitrary: s)
  case Nil
  then show ?case by simp
next
  case (Cons a es)
  obtain w now e where a: "a = (w, now, e)"
    by (cases a) auto
  from Cons.prems have "cache_nonempty (snd (step w now e s))"
    by (rule step_nonempty)
  then have "cache_nonempty (snd (run es (snd (step w now e s))))"
    by (rule Cons.IH)
  then show ?case
    by (simp add: a split_beta Let_def)
qed


lemma getTweetUrlsFromCache_Some:
  "fst (getTweetUrlsFromCache now url s) = Some c \<Longrightarrow>
   \<exists>e. store_get u_tweetUrl (urls s) url = Some e \<and> \<not> now - u_timestamp e > CACHE_TTL
       \<and> c = u_imageUrls e"
  by (auto simp: getTweetUrlsFromCache_def CACHE_TTL_def Let_def split: option.splits if_splits)

text \<open>
  C10. The resolved-URL cache is written only under the guard of a non-empty result: the
  strategies store their result when it has at least one URL and leave the cache alone
  otherwise. So from a state whose cache holds no empty list, for instance an empty cache,
  every sequence of user actions, in whatever environments and at whatever times, leads to
  a state whose cache holds no empty list; and there a cache hit that has not expired is
  never empty and ends the resolution at once, with the cached list and the state as it was.
\<close>

theorem url_cache_entries_nonempty:
  assumes "cache_nonempty s"
  shows "cache_nonempty (snd (run es s))
         \<and> (fst (getTweetUrlsFromCache now url (snd (run es s))) = Some c
              \<longrightarrow> c \<noteq> [] \<and> resolve_images w now url (snd (run es s)) = (c, snd (run es s)))
         \<and> urls (snd (resolve_uncached w now url s))
             = (if fst (resolve_uncached w now url s) \<noteq> []
                then store_put u_tweetUrl
                       \<lparr>u_tweetUrl = url, u_imageUrls = fst (resolve_uncached w now url s),
                        u_timestamp = now\<rparr> (urls s)
                else urls s)
         \<and> (urls t = [] \<longrightarrow> cache_nonempty t)"
proof -
  have inv: "cache_nonempty (snd (run es s))"
    using assms by (rule run_nonempty)
  have hit: "fst (getTweetUrlsFromCache now url (snd (run es s))) = Some c
              \<longrightarrow> c \<noteq> [] \<and> resolve_images w now url (snd (run es s)) = (c, snd (run es s))"
  proof
    assume "fst (getTweetUrlsFromCache now url (snd (run es s))) = Some c"
    then obtain e where g: "store_get u_tweetUrl (urls (snd (run es s))) url = Some e"
      and t: "\<not> now - u_timestamp e > CACHE_TTL" and c: "c = u_imageUrls e"
      using getTweetUrlsFromCache_Some by blast
    from g have "e \<in> set (urls (snd (run es s)))"
      by (simp add: store_get_in_set)
    with inv have ne: "u_imageUrls e \<noteq> []"
      by (simp add: cache_nonempty_def)
    from g t ne have "resolve_images w now url (snd (run es s)) = (u_imageUrls e, snd (run es s))"
      by (rule resolve_images_hit)
    with ne c show "c \<noteq> [] \<and> resolve_images w now url (snd (run es s)) = (c, snd (run es s))"
      by simp
  qed
  have empty: "urls t = [] \<longrightarrow> cache_nonempty t"
    by (simp add: cache_nonempty_def)
  from inv hit resolve_uncached_urls [of w now url s] empty show ?thesis
    by blast
qed

lemma sample_idFor: "idFor 2025 7 = ''2025-10-7''"
  by code_simp

lemma render_fetch_url: "fetch_url (snd (render s)) = fetch_url s"
  by (simp add: render_def autoDoneEffect_def persist_def fetch_url_def Let_def split: option.splits)

lemma persist_fetch_url:
  "dayState s = Some r \<Longrightarrow>
   fetch_url (persist (\<lambda>r. r\<lparr>d_tweetUrl := Some u\<rparr>) s) = (if trim u = [] then None else Some (trim u))"
  by (simp add: persist_def fetch_url_def Let_def)

lemma step_Mount_dayState:
  "getDay (days s) (fst (getCurrentOctDay y m d)) (snd (getCurrentOctDay y m d)) = None \<Longrightarrow>
   dayState (snd (step w now (Mount y m d) s)) \<noteq> None"
  by (simp add: step_def render_def autoDoneEffect_def persist_def loadDay_def mount_def Let_def
      split_beta allImages_def)

lemma step_Mount_urls: "urls (snd (step w now (Mount y m d) s)) = urls s"
  by (simp add: step_def split_beta Let_def render_urls loadDay_urls autoDoneEffect_urls mount_def)

lemma sample_run_urls:
  "urls (snd (run [(relay_env, 5000, Mount 2025 9 7),
                   (relay_env, 5000, EditTweetUrl ''https://x.com/u/status/1''),
                   (relay_env, 5000, FetchTweet)] sample_state))
     = [\<lparr>u_tweetUrl = ''https://x.com/u/status/1'',
         u_imageUrls = [''https://pbs.twimg.com/media/ABC123?format=jpg&name=large'',
                        ''https://pbs.twimg.com/media/XYZ789?format=jpg&name=large''],
         u_timestamp = 5000\<rparr>]"
proof -
  define s1 where "s1 = snd (step relay_env 5000 (Mount 2025 9 7) sample_state)"
  define s2 where "s2 = snd (step relay_env 5000 (EditTweetUrl ''https://x.com/u/status/1'') s1)"
  have "getDay (days sample_state) (fst (getCurrentOctDay 2025 9 7)) (snd (getCurrentOctDay 2025 9 7))
          = None"
    by (simp add: getCurrentOctDay_def getDay_def sample_idFor store_get_def sample_state_def)
  then obtain r where d: "dayState s1 = Some r"
    using step_Mount_dayState [of sample_state 2025 9 7 relay_env 5000] by (auto simp: s1_def)
  have u1: "urls s1 = []"
    by (simp add: s1_def step_Mount_urls sample_state_def)
  have u0: "urls s2 = []"
    by (simp add: s2_def step_def render_urls persist_urls u1)
  have t: "trim ''https://x.com/u/status/1'' = ''https://x.com/u/status/1''"
    by (simp add: trim_def isWhiteSpace_def)
  have f: "fetch_url s2 = Some ''https://x.com/u/status/1''"
    using persist_fetch_url [OF d, of "''https://x.com/u/status/1''"]
    by (simp add: s2_def step_def render_fetch_url t)
  define s3 where "s3 = snd (render (handleTweetFetch_begin s2))"
  have u3: "urls s3 = []"
    by (simp add: s3_def render_urls handleTweetFetch_begin_urls u0)
  have g: "store_get u_tweetUrl (urls s3) ''https://x.com/u/status/1'' = None"
    by (simp add: u3 store_get_def)
  have r: "resolve_images relay_env 5000 ''https://x.com/u/status/1'' s3
             = resolve_uncached relay_env 5000 ''https://x.com/u/status/1'' s3"
    using g by (simp add: resolve_images_miss)
  have i: "fst (resolve_uncached relay_env 5000 ''https://x.com/u/status/1'' s3)
             = [''https://pbs.twimg.com/media/ABC123?format=jpg&name=large'',
                ''https://pbs.twimg.com/media/XYZ789?format=jpg&name=large'']"
    by (simp add: resolve_uncached_fst sample_oembed sample_proxies sample_relay_yield)
  have "urls (snd (step relay_env 5000 FetchTweet s2))
          = urls (snd (resolve_uncached relay_env 5000 ''https://x.com/u/status/1'' s3))"
    by (simp add: step_def f Let_def split_beta render_urls handleTweetFetch_rest_urls
        r [unfolded s3_def] s3_def)
  also have "\<dots> = [\<lparr>u_tweetUrl = ''https://x.com/u/status/1'',
         u_imageUrls = [''https://pbs.twimg.com/media/ABC123?format=jpg&name=large'',
                        ''https://pbs.twimg.com/media/XYZ789?format=jpg&name=large''],
         u_timestamp = 5000\<rparr>]"
    by (simp add: resolve_uncached_urls i u3 store_put_def)
  finally show ?thesis
    by (simp add: s2_def s1_def split_beta Let_def)
qed

theorem url_cache_entries_nonempty_witness:
  "cache_nonempty sample_state
   \<and> urls sample_state = []
   \<and> cache_nonempty (snd (run [(relay_env, 5000, Mount 2025 9 7),
                                (relay_env, 5000, EditTweetUrl ''https://x.com/u/status/1''),
                                (relay_env, 5000, FetchTweet)] sample_state))
   \<and> fst (getTweetUrlsFromCache 6000 ''https://x.com/u/status/1''
            (snd (run [(relay_env, 5000, Mount 2025 9 7),
                       (relay_env, 5000, EditTweetUrl ''https://x.com/u/status/1''),
                       (relay_env, 5000, FetchTweet)] sample_state)))
       = Some [''https://pbs.twimg.com/media/ABC123?format=jpg&name=large'',
               ''https://pbs.twimg.com/media/XYZ789?format=jpg&name=large'']
   \<and> fst (resolve_images relay_env 6000 ''https://x.com/u/status/1''
            (snd (run [(relay_env, 5000, Mount 2025 9 7),
                       (relay_env, 5000, EditTweetUrl ''https://x.com/u/status/1''),
                       (relay_env, 5000, FetchTweet)] sample_state)))
       = [''https://pbs.twimg.com/media/ABC123?format=jpg&name=large'',
          ''https://pbs.twimg.com/media/XYZ789?format=jpg&name=large'']"
proof -
  have c: "cache_nonempty sample_state"
    by (simp add: cache_nonempty_def sample_state_def)
  have e: "urls sample_state = []"
    by (simp add: sample_state_def)
  have h: "fst (getTweetUrlsFromCache 6000 ''https://x.com/u/status/1''
            (snd (run [(relay_env, 5000, Mount 2025 9 7),
                       (relay_env, 5000, EditTweetUrl ''https://x.com/u/status/1''),
                       (relay_env, 5000, FetchTweet)] sample_state)))
       = Some [''https://pbs.twimg.com/media/ABC123?format=jpg&name=large'',
               ''https://pbs.twimg.com/media/XYZ789?format=jpg&name=large'']"
    by (simp add: getTweetUrlsFromCache_def sample_run_urls store_get_def del: run.simps)
  note t = url_cache_entries_nonempty [OF c,
      of "[(relay_env, 5000, Mount 2025 9 7),
           (relay_env, 5000, EditTweetUrl ''https://x.com/u/status/1''),
           (relay_env, 5000, FetchTweet)]" 6000 "''https://x.com/u/status/1''"]
  have r: "fst (resolve_images relay_env 6000 ''https://x.com/u/status/1''
            (snd (run [(relay_env, 5000, Mount 2025 9 7),
                       (relay_env, 5000, EditTweetUrl ''https://x.com/u/status/1''),
                       (relay_env, 5000, FetchTweet)] sample_state)))
       = [''https://pbs.twimg.com/media/ABC123?format=jpg&name=large'',
          ''https://pbs.twimg.com/media/XYZ789?format=jpg&name=large'']"
    using t [THEN conjunct2, THEN conjunct1, rule_format, OF h, THEN conjunct2, of relay_env]
    by (simp del: run.simps)
  from c e t [THEN conjunct1] h r show ?thesis
    by blast
qed


lemma persist_prev: "prevImgCount (persist f s) = prevImgCount s"
  by (simp add: persist_def Let_def split: option.splits)

lemma edge_triggered_append:
  "edge_triggered p (t1 @ t2) = (edge_triggered p t1 \<and> edge_triggered (last_seen p t1) t2)"
  by (induction t1 arbitrary: p) (auto simp: last_seen_def)

lemma last_seen_append: "last_seen p (t1 @ t2) = last_seen (last_seen p t1) t2"
  by (simp add: last_seen_def)

lemma render_edge:
  "edge_triggered (prevImgCount s) (fst (render s))
   \<and> prevImgCount (snd (render s)) = last_seen (prevImgCount s) (fst (render s))"
  by (simp add: render_def autoDoneEffect_def Let_def last_seen_def persist_prev)

lemma loadDay_prev: "prevImgCount (loadDay s) = prevImgCount s"
  by (simp add: loadDay_def Let_def)

lemma handleImport_prev: "prevImgCount (snd (handleImport file s)) = prevImgCount s"
  by (simp add: handleImport_def Let_def split_beta
      split: option.splits file_content.splits import_data.splits)

lemma handleTweetFetch_begin_prev: "prevImgCount (handleTweetFetch_begin s) = prevImgCount s"
  by (simp add: handleTweetFetch_begin_def split: option.splits)

lemma try_proxies_prev: "prevImgCount (snd (try_proxies w ps s)) = prevImgCount s"
  by (simp add: try_proxies_spec)

lemma oembed_images_prev: "prevImgCount (snd (oembed_images w url s)) = prevImgCount s"
  by (simp add: oembed_images_def fetch_def Let_def split: option.splits json_body.splits)

lemma resolve_uncached_prev: "prevImgCount (snd (resolve_uncached w now url s)) = prevImgCount s"
  by (simp add: resolve_uncached_def Let_def split_beta fetchTweetImagesViaProxy_def try_proxies_prev
      oembed_images_prev saveTweetUrlsToCache_def)

lemma resolve_images_prev: "prevImgCount (snd (resolve_images w now url s)) = prevImgCount s"
  by (simp add: resolve_images_def getTweetUrlsFromCache_def Let_def resolve_uncached_prev
      split: option.splits)

lemma downloadAndCacheImage_prev: "prevImgCount (snd (downloadAndCacheImage w now u s)) = prevImgCount s"
  by (simp add: downloadAndCacheImage_def getImageFromCache_def fetch_def saveImageToCache_def Let_def
      split: option.splits)

lemma process_images_prev: "prevImgCount (snd (process_images w now us s)) = prevImgCount s"
  by (induction us arbitrary: s) (simp_all add: downloadAndCacheImage_prev split_beta Let_def)

lemma handleTweetFetch_rest_prev: "prevImgCount (handleTweetFetch_rest w now url s) = prevImgCount s"
  by (simp add: handleTweetFetch_rest_def Let_def split_beta process_images_prev resolve_images_prev)

lemma clearCacheClick_start_prev: "prevImgCount (clearCacheClick_start s) = prevImgCount s"
  by (simp add: clearCacheClick_start_def clearUrlsCache_def clearImageCache_def Let_def)

lemma clearCacheClick_finish_prev: "prevImgCount (clearCacheClick_finish s) = prevImgCount s"
  by (simp add: clearCacheClick_finish_def Let_def split: option.splits)

lemma render_after:
  "prevImgCount t = p \<Longrightarrow>
   edge_triggered p (fst (render t)) \<and> prevImgCount (snd (render t)) = last_seen p (fst (render t))"
  using render_edge [of t] by simp

lemma render_twice:
  assumes "prevImgCount t = prevImgCount s"
    and "\<And>u. prevImgCount (g u) = prevImgCount u"
  shows "edge_triggered (prevImgCount s) (fst (render t) @ fst (render (g (snd (render t)))))
   \<and> prevImgCount (snd (render (g (snd (render t)))))
       = last_seen (prevImgCount s) (fst (render t) @ fst (render (g (snd (render t)))))"
proof -
  have 1: "edge_triggered (prevImgCount s) (fst (render t))"
    and 2: "prevImgCount (snd (render t)) = last_seen (prevImgCount s) (fst (render t))"
    using render_after [OF assms(1)] by simp_all
  have "prevImgCount (g (snd (render t))) = last_seen (prevImgCount s) (fst (render t))"
    using assms(2) 2 by simp
  from render_after [OF this] 1 2 show ?thesis
    by (simp add: edge_triggered_append last_seen_append)
qed

lemma step_edge:
  "edge_triggered (prevImgCount s) (fst (step w now e s))
   \<and> prevImgCount (snd (step w now e s)) = last_seen (prevImgCount s) (fst (step w now e s))"
proof (cases e)
  case (Mount y m d)
  define s0 where "s0 = mount (getCurrentOctDay y m d) s"
  have a: "allImages s0 = []" "prevImgCount s0 = 0"
    by (simp_all add: s0_def mount_def allImages_def)
  have b: "autoDoneEffect s0 = (False, s0)"
    using a by (simp add: autoDoneEffect_def Let_def)
  have c: "prevImgCount (loadDay s0) = 0"
    by (simp add: loadDay_prev a)
  have "step w now e s = ((0, False) # fst (render (loadDay s0)), snd (render (loadDay s0)))"
    using a b by (simp add: Mount step_def Let_def split_beta s0_def [symmetric])
  moreover have "edge_triggered 0 (fst (render (loadDay s0)))
     \<and> prevImgCount (snd (render (loadDay s0))) = last_seen 0 (fst (render (loadDay s0)))"
    using render_edge [of "loadDay s0"] c by simp
  ultimately show ?thesis
    by (auto simp: last_seen_def)
next
  case (SelectDay d)
  then show ?thesis
    using render_after [of "loadDay (s\<lparr>selectedDay := d\<rparr>)" "prevImgCount s"]
    by (simp add: step_def loadDay_prev last_seen_def)
next
  case (ToggleDone b)
  then show ?thesis
    using render_after [of "toggleDone b s" "prevImgCount s"]
    by (simp add: step_def toggleDone_def persist_prev)
next
  case (EditTweetUrl u)
  then show ?thesis
    using render_after [of "persist (\<lambda>r. r\<lparr>d_tweetUrl := Some u\<rparr>) s" "prevImgCount s"]
    by (simp add: step_def persist_prev)
next
  case FetchTweet
  show ?thesis
  proof (cases "fetch_url s")
    case None
    with FetchTweet show ?thesis
      by (simp add: step_def last_seen_def)
  next
    case (Some url)
    show ?thesis
      using render_twice [of "handleTweetFetch_begin s" s "handleTweetFetch_rest w now url"]
      by (simp add: FetchTweet Some step_def Let_def split_beta handleTweetFetch_begin_prev
          handleTweetFetch_rest_prev)
  qed
next
  case (EditManualInput v)
  then show ?thesis
    using render_after [of "s\<lparr>manualUrlsInput := v\<rparr>" "prevImgCount s"]
    by (simp add: step_def)
next
  case SaveManualUrls
  then show ?thesis
    using render_after [of "handleManualUrlsSave s" "prevImgCount s"]
    by (simp add: step_def handleManualUrlsSave_def persist_prev)
next
  case ClearManualUrls
  then show ?thesis
    using render_after [of "persist (\<lambda>r. r\<lparr>d_manualImageUrls := Some []\<rparr>) (s\<lparr>manualUrlsInput := []\<rparr>)" "prevImgCount s"]
    by (simp add: step_def persist_prev)
next
  case (Import f)
  have p: "prevImgCount (snd (handleImport f s)) = prevImgCount s"
    by (rule handleImport_prev)
  show ?thesis
  proof (cases "handleImport f s")
    case (Pair err s1)
    with p have "prevImgCount s1 = prevImgCount s"
      by simp
    then show ?thesis
      using render_after [of s1 "prevImgCount s"] Pair
      by (auto simp: Import step_def last_seen_def split: option.splits)
  qed
next
  case (ClearCache confirmed)
  show ?thesis
  proof (cases confirmed)
    case True
    show ?thesis
      using render_twice [of "clearCacheClick_start s" s clearCacheClick_finish]
      by (simp add: ClearCache True step_def Let_def split_beta clearCacheClick_start_prev
          clearCacheClick_finish_prev)
  next
    case False
    with ClearCache show ?thesis
      by (simp add: step_def last_seen_def)
  qed
qed

lemma run_edge:
  "edge_triggered (prevImgCount s) (fst (run es s))
   \<and> prevImgCount (snd (run es s)) = last_seen (prevImgCount s) (fst (run es s))"
proof (induction es arbitrary: s)
  case Nil
  show ?case by (simp add: last_seen_def)
next
  case (Cons a es)
  obtain w now e where a: "a = (w, now, e)"
    by (cases a) auto
  from step_edge [of s w now e] Cons.IH [of "snd (step w now e s)"]
  show ?case
    by (simp add: a split_beta Let_def edge_triggered_append last_seen_append)
qed

lemma edge_triggered_positive:
  "edge_triggered p t \<Longrightarrow> p > 0 \<Longrightarrow> \<forall>(n, f)\<in>set t. n > 0 \<Longrightarrow> \<forall>(n, f)\<in>set t. \<not> f"
proof (induction t arbitrary: p)
  case Nil
  then show ?case by simp
next
  case (Cons a t)
  obtain n f where a: "a = (n, f)"
    by (cases a) auto
  from Cons.prems a have n: "n > 0" and nf: "\<not> f" and e: "edge_triggered n t"
    and r: "\<forall>(n, f)\<in>set t. n > 0"
    by auto
  from Cons.IH [OF e n r] nf a show ?case
    by simp
qed


lemma persist_allImages_done: "allImages (persist (\<lambda>r. r\<lparr>d_done := b\<rparr>) s) = allImages s"
  by (simp add: persist_def allImages_def Let_def split: option.splits)

lemma persist_dayState: "dayState s = Some r \<Longrightarrow> dayState (persist f s) = Some (f r)"
  by (simp add: persist_def Let_def)

lemma persist_days: "dayState s = Some r \<Longrightarrow> days (persist f s) = setDay (f r) (days s)"
  by (simp add: persist_def Let_def)

text \<open>
  What the rule does guarantee. In every run of user actions, from every state, each patch
  that the rule issues comes from a run of the effect that sees a positive image count when
  the count it saw before was zero. At such a transition, with a record loaded whose
  \<open>done\<close> is false, the effect runs once and issues the patch, and rendering again issues
  nothing. As long as the counts seen stay positive the rule issues no patch, and
  unmarking the day by hand, with the count unchanged, runs no effect.
\<close>

lemma auto_done_edge_rule:
  "edge_triggered (prevImgCount s) (fst (run es s))
   \<and> (prevImgCount s = 0 \<and> allImages s \<noteq> [] \<and> dayState s = Some r \<and> \<not> d_done r \<longrightarrow>
        fst (render s) = [(length (allImages s), True)]
        \<and> dayState (snd (render s)) = Some (r\<lparr>d_done := True\<rparr>)
        \<and> store_get d_id (days (snd (render s))) (d_id r) = Some (r\<lparr>d_done := True\<rparr>)
        \<and> fst (render (snd (render s))) = [])
   \<and> (prevImgCount s > 0 \<and> (\<forall>(n, f)\<in>set (fst (run es s)). n > 0)
        \<longrightarrow> (\<forall>(n, f)\<in>set (fst (run es s)). \<not> f))
   \<and> (prevImgCount s = length (allImages s) \<and> dayState s = Some r \<longrightarrow>
        step w now (ToggleDone False) s = ([], toggleDone False s)
        \<and> dayState (toggleDone False s) = Some (r\<lparr>d_done := False\<rparr>)
        \<and> prevImgCount (toggleDone False s) = length (allImages (toggleDone False s)))"
proof -
  have 1: "edge_triggered (prevImgCount s) (fst (run es s))"
    using run_edge [of s es] by simp
  have 2: "prevImgCount s = 0 \<and> allImages s \<noteq> [] \<and> dayState s = Some r \<and> \<not> d_done r \<longrightarrow>
        fst (render s) = [(length (allImages s), True)]
        \<and> dayState (snd (render s)) = Some (r\<lparr>d_done := True\<rparr>)
        \<and> store_get d_id (days (snd (render s))) (d_id r) = Some (r\<lparr>d_done := True\<rparr>)
        \<and> fst (render (snd (render s))) = []"
  proof (intro impI, elim conjE)
    assume p: "prevImgCount s = 0" and a: "allImages s \<noteq> []" and d: "dayState s = Some r"
      and n: "\<not> d_done r"
    have e: "autoDoneEffect s
               = (True, (persist (\<lambda>r. r\<lparr>d_done := True\<rparr>) s)\<lparr>prevImgCount := length (allImages s)\<rparr>)"
      using p a d n by (simp add: autoDoneEffect_def Let_def)
    have r1: "render s
               = ([(length (allImages s), True)],
                  (persist (\<lambda>r. r\<lparr>d_done := True\<rparr>) s)\<lparr>prevImgCount := length (allImages s)\<rparr>)"
      using p a e by (simp add: render_def)
    have al: "allImages ((persist (\<lambda>r. r\<lparr>d_done := True\<rparr>) s)\<lparr>prevImgCount := length (allImages s)\<rparr>)
                = allImages s"
      using persist_allImages_done [of True s] by (simp add: allImages_def)
    have r2: "fst (render (snd (render s))) = []"
      unfolding r1 by (simp add: render_def al)
    show "fst (render s) = [(length (allImages s), True)]
        \<and> dayState (snd (render s)) = Some (r\<lparr>d_done := True\<rparr>)
        \<and> store_get d_id (days (snd (render s))) (d_id r) = Some (r\<lparr>d_done := True\<rparr>)
        \<and> fst (render (snd (render s))) = []"
      using r1 r2 d by (simp add: persist_dayState persist_days setDay_def store_get_put)
  qed
  have 3: "prevImgCount s > 0 \<and> (\<forall>(n, f)\<in>set (fst (run es s)). n > 0)
        \<longrightarrow> (\<forall>(n, f)\<in>set (fst (run es s)). \<not> f)"
    using edge_triggered_positive [OF 1] by blast
  have 4: "prevImgCount s = length (allImages s) \<and> dayState s = Some r \<longrightarrow>
        step w now (ToggleDone False) s = ([], toggleDone False s)
        \<and> dayState (toggleDone False s) = Some (r\<lparr>d_done := False\<rparr>)
        \<and> prevImgCount (toggleDone False s) = length (allImages (toggleDone False s))"
    by (simp add: step_def render_def toggleDone_def persist_allImages_done persist_prev
        persist_dayState)
  from 1 2 3 4 show ?thesis
    by blast
qed



lemma session_allImages:
  "allImages (session_state b us inp n) = map Remote (filter (\<lambda>u. u \<noteq> []) us)"
  by (simp add: allImages_def session_state_def day7_def)

lemma session_persist:
  "persist f (session_state b us inp n)
     = (session_state b us inp n)\<lparr>dayState := Some (f (day7 b us)),
          days := setDay (f (day7 b us)) [day3, day7 b us],
          allDaysCache := [3 \<mapsto> day3, 7 \<mapsto> day7 b us](d_day (f (day7 b us)) \<mapsto> f (day7 b us))\<rparr>"
  by (simp add: persist_def session_state_def Let_def)

lemma session_setDay: "setDay (day7 c vs) [day3, day7 b us] = [day3, day7 c vs]"
  by (simp add: setDay_def store_put_def day3_def day7_def)

lemma day7_simps:
  "day7 b us\<lparr>d_done := c\<rparr> = day7 c us"
  "day7 b us\<lparr>d_manualImageUrls := Some vs\<rparr> = day7 b vs"
  "d_day (day7 b us) = 7"
  "d_done (day7 b us) = b"
  "d_manualImageUrls (day7 b us) = Some us"
  by (simp_all add: day7_def)

lemma session_update:
  "(session_state b us inp n)\<lparr>dayState := Some (day7 c vs), days := [day3, day7 c vs],
      allDaysCache := [3 \<mapsto> day3, 7 \<mapsto> day7 c vs]\<rparr>
     = session_state c vs inp n"
  "(session_state b us inp n)\<lparr>prevImgCount := k\<rparr> = session_state b us inp k"
  "(session_state b us inp n)\<lparr>manualUrlsInput := v\<rparr> = session_state b us v n"
  "prevImgCount (session_state b us inp n) = n"
  "manualUrlsInput (session_state b us inp n) = inp"
  "dayState (session_state b us inp n) = Some (day7 b us)"
  by (simp_all add: session_state_def)

lemma session_toggle:
  "length (filter (\<lambda>u. u \<noteq> []) us) = n \<Longrightarrow>
   step w now (ToggleDone c) (session_state b us inp n) = ([], session_state c us inp n)"
  by (simp add: step_def render_def toggleDone_def session_persist session_setDay day7_simps
      session_update session_allImages)


lemma sample_idFor4: "idFor 2025 4 = ''2025-10-4''"
  by code_simp

lemma session_getDay:
  "getDay (days (session_state b us inp n)) 2025 7 = Some (day7 b us)"
  "getDay (days (session_state b us inp n)) 2025 4 = None"
  by (simp_all add: getDay_def sample_idFor sample_idFor4 store_get_Cons store_get_Nil
      session_state_def day3_def day7_def)

lemma session_index:
  "index_by_day (getAllDays (days (session_state b us inp n))) = [3 \<mapsto> day3, 7 \<mapsto> day7 b us]"
  by (simp add: index_by_day_def getAllDays_def store_getAll_def session_state_def day3_def day7_def)

lemma session_loadDay:
  "loadDay ((session_state b us inp n)\<lparr>dayState := ds, manualUrlsInput := v,
              allDaysCache := ac, prevImgCount := k\<rparr>)
     = session_state b us (join '', '' us) k"
  using session_getDay(1) [of b us inp n] session_index [of b us inp n]
  by (simp add: loadDay_def Let_def) (simp add: session_state_def day7_simps)

lemma session_render:
  "render (session_state b us inp 0)
     = (if length (filter (\<lambda>u. u \<noteq> []) us) = 0 then ([], session_state b us inp 0)
        else ([(length (filter (\<lambda>u. u \<noteq> []) us), \<not> b)],
              session_state True us inp (length (filter (\<lambda>u. u \<noteq> []) us))))"
  by (simp add: render_def autoDoneEffect_def Let_def session_allImages session_update
      session_persist session_setDay day7_simps)

lemma session_mount:
  "step w now (Mount 2025 9 7) (session_state b us inp n)
     = ((0, False) # fst (render (session_state b us (join '', '' us) 0)),
        snd (render (session_state b us (join '', '' us) 0)))"
proof -
  have m: "mount (getCurrentOctDay 2025 9 7) (session_state b us inp n)
             = (session_state b us inp n)\<lparr>dayState := None, manualUrlsInput := [],
                   allDaysCache := Map.empty, prevImgCount := 0\<rparr>"
    by (simp add: mount_def getCurrentOctDay_def session_state_def)
  have a: "autoDoneEffect ((session_state b us inp n)\<lparr>dayState := None, manualUrlsInput := [],
                   allDaysCache := Map.empty, prevImgCount := 0\<rparr>)
             = (False, (session_state b us inp n)\<lparr>dayState := None, manualUrlsInput := [],
                   allDaysCache := Map.empty, prevImgCount := 0\<rparr>)"
    by (simp add: autoDoneEffect_def Let_def allImages_def session_state_def)
  have c: "allImages ((session_state b us inp n)\<lparr>dayState := None, manualUrlsInput := [],
                   allDaysCache := Map.empty, prevImgCount := 0\<rparr>) = []"
    by (simp add: allImages_def session_state_def)
  show ?thesis
    by (simp add: step_def m a c session_loadDay split_beta Let_def)
qed


lemma session_go_away:
  "step w now (SelectDay 4) (session_state b us inp n)
     = (if n = 0 then [] else [(0, False)], away_state b us)"
proof -
  have l: "loadDay ((session_state b us inp n)\<lparr>selectedDay := 4\<rparr>)
             = (session_state b us [] n)\<lparr>selectedDay := 4, dayState := Some (default_day 2025 4)\<rparr>"
    using session_getDay(2) [of b us inp n] session_index [of b us inp n]
    by (simp add: loadDay_def Let_def) (simp add: session_state_def)
  have a: "allImages ((session_state b us [] n)\<lparr>selectedDay := 4, dayState := Some (default_day 2025 4)\<rparr>) = []"
    by (simp add: allImages_def default_day_def session_state_def)
  have s: "selectedDay (session_state b us inp n) = 7"
    by (simp add: session_state_def)
  show ?thesis
    by (simp add: step_def s l render_def a autoDoneEffect_def Let_def away_state_def)
       (simp add: session_state_def)
qed

lemma session_come_back:
  "step w now (SelectDay 7) (away_state b us) = render (session_state b us (join '', '' us) 0)"
proof -
  have "(away_state b us)\<lparr>selectedDay := 7\<rparr>
          = (session_state b us [] 0)\<lparr>dayState := Some (default_day 2025 4), manualUrlsInput := [],
               allDaysCache := [3 \<mapsto> day3, 7 \<mapsto> day7 b us], prevImgCount := 0\<rparr>"
    by (simp add: away_state_def session_state_def)
  then have "loadDay ((away_state b us)\<lparr>selectedDay := 7\<rparr>) = session_state b us (join '', '' us) 0"
    by (simp only: session_loadDay)
  moreover have "selectedDay (away_state b us) = 4"
    by (simp add: away_state_def)
  ultimately show ?thesis
    by (simp add: step_def)
qed

text \<open>
  C2. The rule marks the day done when the image count goes from zero to a positive number,
  once, and it must not set \<open>done\<close> back to true after the user has unmarked the day, unless
  the count has returned to zero and risen again. The code breaks the last part. Day 7 has
  one manual image and is done; the user unmarks it, which stores \<open>done\<close> false and runs no
  effect. When the page is then loaded again, the effect sees 0 and then 1 and issues the
  patch: the store holds day 7 done again. The same happens when the user goes to day 4,
  which has no images, and comes back. The images of day 7 were never removed.
\<close>

theorem auto_done_remarks_unmarked_day:
  "step relay_env 5000 (ToggleDone False)
       (session_state True [''https://a.com/1.jpg''] ''https://a.com/1.jpg'' 1)
     = ([], session_state False [''https://a.com/1.jpg''] ''https://a.com/1.jpg'' 1)
   \<and> store_get d_id (days (session_state False [''https://a.com/1.jpg''] ''https://a.com/1.jpg'' 1))
         ''2025-10-7''
     = Some (day7 False [''https://a.com/1.jpg''])
   \<and> step relay_env 6000 (Mount 2025 9 7)
       (session_state False [''https://a.com/1.jpg''] ''https://a.com/1.jpg'' 1)
     = ([(0, False), (1, True)],
        session_state True [''https://a.com/1.jpg''] ''https://a.com/1.jpg'' 1)
   \<and> run [(relay_env, 6000, SelectDay 4), (relay_env, 7000, SelectDay 7)]
         (session_state False [''https://a.com/1.jpg''] ''https://a.com/1.jpg'' 1)
     = ([(0, False), (1, True)],
        session_state True [''https://a.com/1.jpg''] ''https://a.com/1.jpg'' 1)
   \<and> store_get d_id (days (session_state True [''https://a.com/1.jpg''] ''https://a.com/1.jpg'' 1))
         ''2025-10-7''
     = Some (day7 True [''https://a.com/1.jpg''])
   \<and> d_done (day7 True [''https://a.com/1.jpg''])
   \<and> d_manualImageUrls (day7 False [''https://a.com/1.jpg'']) = Some [''https://a.com/1.jpg'']"
proof -
  have 1: "step relay_env 5000 (ToggleDone False)
       (session_state True [''https://a.com/1.jpg''] ''https://a.com/1.jpg'' 1)
     = ([], session_state False [''https://a.com/1.jpg''] ''https://a.com/1.jpg'' 1)"
    by (simp add: session_toggle)
  have g: "store_get d_id (days (session_state b [''https://a.com/1.jpg''] inp 1)) ''2025-10-7''
     = Some (day7 b [''https://a.com/1.jpg''])" for b inp
    using session_getDay(1) [of b "[''https://a.com/1.jpg'']" inp 1]
    by (simp add: getDay_def sample_idFor)
  have r: "render (session_state False [''https://a.com/1.jpg''] ''https://a.com/1.jpg'' 0)
             = ([(1, True)], session_state True [''https://a.com/1.jpg''] ''https://a.com/1.jpg'' 1)"
    by (simp add: session_render)
  have 3: "step relay_env 6000 (Mount 2025 9 7)
       (session_state False [''https://a.com/1.jpg''] ''https://a.com/1.jpg'' 1)
     = ([(0, False), (1, True)],
        session_state True [''https://a.com/1.jpg''] ''https://a.com/1.jpg'' 1)"
    by (simp add: session_mount r)
  have 4: "run [(relay_env, 6000, SelectDay 4), (relay_env, 7000, SelectDay 7)]
         (session_state False [''https://a.com/1.jpg''] ''https://a.com/1.jpg'' 1)
     = ([(0, False), (1, True)],
        session_state True [''https://a.com/1.jpg''] ''https://a.com/1.jpg'' 1)"
    by (simp add: session_go_away session_come_back r)
  from 1 g 3 4 show ?thesis
    by (simp add: day7_simps)
qed































end
